theory Spec2Isabelle
  imports Main "HOL-Library.Word" "HOL-Library.Sublist"
begin

section \<open>JavaScript strings\<close>

text \<open>
  A JavaScript string is a sequence of UTF-16 code units. The regular expressions of
  \<^verbatim>\<open>PythonLab.tsx\<close> carry no \<^verbatim>\<open>u\<close> flag, so they work on code units too.
  \<open>str\<close> writes an ASCII literal of the source as such a sequence.
\<close>

type_synonym jsstring = "16 word list"

definition str :: "string \<Rightarrow> jsstring" where
  "str s = map of_char s"

text \<open>\<^verbatim>\<open>\d\<close> without the \<^verbatim>\<open>u\<close> flag is \<^verbatim>\<open>[0-9]\<close>.\<close>

definition isDigit :: "16 word \<Rightarrow> bool" where
  "isDigit c = (0x30 \<le> c \<and> c \<le> 0x39)"

text \<open>The line terminators of ECMAScript: LF, CR, LS, PS. Without the \<^verbatim>\<open>s\<close> flag,
  \<^verbatim>\<open>.\<close> matches every code unit but these.\<close>

definition isLineTerminator :: "16 word \<Rightarrow> bool" where
  "isLineTerminator c = (c = 0x000A \<or> c = 0x000D \<or> c = 0x2028 \<or> c = 0x2029)"

text \<open>What \<^verbatim>\<open>String.prototype.trim\<close> strips: WhiteSpace (TAB, VT, FF, SP, NBSP,
  ZWNBSP and the other space separators) and the line terminators.\<close>

definition isWhiteSpace :: "16 word \<Rightarrow> bool" where
  "isWhiteSpace c =
     (c = 0x0009 \<or> c = 0x000B \<or> c = 0x000C \<or> c = 0x0020 \<or> c = 0x00A0 \<or> c = 0xFEFF \<or>
      c = 0x1680 \<or> (0x2000 \<le> c \<and> c \<le> 0x200A) \<or> c = 0x202F \<or> c = 0x205F \<or> c = 0x3000 \<or>
      isLineTerminator c)"

definition trim :: "jsstring \<Rightarrow> jsstring" where
  "trim s = rev (dropWhile isWhiteSpace (rev (dropWhile isWhiteSpace s)))"

text \<open>\<^verbatim>\<open>s.includes(pat)\<close>: the index of the first occurrence of \<open>pat\<close>, if any.\<close>

fun find_first :: "jsstring \<Rightarrow> jsstring \<Rightarrow> nat option" where
  "find_first pat [] = (if pat = [] then Some 0 else None)"
| "find_first pat (c # cs) =
     (if prefix pat (c # cs) then Some 0 else map_option Suc (find_first pat cs))"

definition includes_js :: "jsstring \<Rightarrow> jsstring \<Rightarrow> bool" where
  "includes_js s pat = (find_first pat s \<noteq> None)"

text \<open>A non-negative integer in a template literal: its decimal digits.\<close>

fun decimal :: "nat \<Rightarrow> jsstring" where
  "decimal n =
     (if n < 10 then [of_nat (48 + n)] else decimal (n div 10) @ [of_nat (48 + n mod 10)])"

declare decimal.simps [simp del]

section \<open>The regular expressions of the component\<close>

subsection \<open>\<^verbatim>\<open>/input\(/g\<close>\<close>

text \<open>
  \<^verbatim>\<open>code.match(/input\(/g)\<close> is the array of the matches, scanned from the left, each
  scan resuming where the last match ended, or \<^verbatim>\<open>null\<close> when there is none.
\<close>

fun input_matches :: "jsstring \<Rightarrow> jsstring list" where
  "input_matches [] = []"
| "input_matches (c # cs) =
     (if prefix (str ''input('') (c # cs)
      then str ''input('' # input_matches (drop 6 (c # cs))
      else input_matches cs)"

definition match_input :: "jsstring \<Rightarrow> jsstring list option" where
  "match_input s = (case input_matches s of [] \<Rightarrow> None | m # ms \<Rightarrow> Some (m # ms))"

text \<open>\<^verbatim>\<open>inputMatches ? inputMatches.length : 0\<close>\<close>

definition inputCount :: "jsstring \<Rightarrow> nat" where
  "inputCount code = (case match_input code of None \<Rightarrow> 0 | Some ms \<Rightarrow> length ms)"

subsection \<open>The graph wrapper \<^verbatim>\<open>__GRAPH_(\d+)__(.+?)__GRAPH_END__\<close>\<close>

definition GRAPH_BEGIN :: jsstring where
  "GRAPH_BEGIN = str ''__GRAPH_''"

definition GRAPH_SEP :: jsstring where
  "GRAPH_SEP = str ''__''"

definition GRAPH_END :: jsstring where
  "GRAPH_END = str ''__GRAPH_END__''"

text \<open>
  A lazy run of \<^verbatim>\<open>.\<close> (with the \<^verbatim>\<open>s\<close> flag, or \<^verbatim>\<open>[\s\S]\<close>, when \<open>dotall\<close>)
  followed by the literal \<open>pat\<close>: the shortest run, possibly empty, after which \<open>pat\<close>
  stands; none when the text ends, or the run meets a code unit that \<^verbatim>\<open>.\<close> refuses,
  before \<open>pat\<close> is found.
\<close>

fun lazy_until :: "bool \<Rightarrow> jsstring \<Rightarrow> jsstring \<Rightarrow> jsstring option" where
  "lazy_until dotall pat [] = (if pat = [] then Some [] else None)"
| "lazy_until dotall pat (c # cs) =
     (if prefix pat (c # cs) then Some []
      else if dotall \<or> \<not> isLineTerminator c
      then map_option ((#) c) (lazy_until dotall pat cs)
      else None)"

text \<open>
  One attempt of the wrapper pattern at the head of \<open>s\<close>; the result is the ordinal and
  the payload. \<^verbatim>\<open>\d+\<close> is greedy and the code unit after it must be \<^verbatim>\<open>_\<close>, so it
  takes the whole run of digits: giving one back leaves a digit where \<^verbatim>\<open>__\<close> is due.
  \<^verbatim>\<open>.+?\<close> takes one code unit and then as few as possible.
\<close>

definition wrapper_at :: "bool \<Rightarrow> jsstring \<Rightarrow> (jsstring \<times> jsstring) option" where
  "wrapper_at dotall s =
     (if prefix GRAPH_BEGIN s then
        let r = drop (length GRAPH_BEGIN) s;
            ds = takeWhile isDigit r;
            r' = dropWhile isDigit r
        in if ds \<noteq> [] \<and> prefix GRAPH_SEP r' then
             (case drop (length GRAPH_SEP) r' of
                [] \<Rightarrow> None
              | c # cs \<Rightarrow>
                  if dotall \<or> \<not> isLineTerminator c
                  then map_option (\<lambda>p. (ds, c # p)) (lazy_until dotall GRAPH_END cs)
                  else None)
           else None
      else None)"

text \<open>The text a successful attempt consumed.\<close>

definition wrapper_text :: "jsstring \<times> jsstring \<Rightarrow> jsstring" where
  "wrapper_text w = GRAPH_BEGIN @ fst w @ GRAPH_SEP @ snd w @ GRAPH_END"

text \<open>
  \<^verbatim>\<open>formattedOutput.match(/__GRAPH_(\d+)__(.+?)__GRAPH_END__/gs)\<close>: the matched
  substrings, left to right, none overlapping (the empty list stands for \<^verbatim>\<open>null\<close>).
\<close>

function graph_matches :: "jsstring \<Rightarrow> jsstring list" where
  "graph_matches [] = []"
| "graph_matches (c # cs) =
     (case wrapper_at True (c # cs) of
        Some w \<Rightarrow> wrapper_text w # graph_matches (drop (length (wrapper_text w)) (c # cs))
      | None \<Rightarrow> graph_matches cs)"
  by pat_completeness auto
termination
  by (relation "measure length") (auto simp: wrapper_text_def GRAPH_BEGIN_def str_def)

text \<open>
  \<^verbatim>\<open>match.match(/__GRAPH_\d+__(.+?)__GRAPH_END__/)\<close>: the first match in \<open>s\<close>, this time
  without the \<^verbatim>\<open>s\<close> flag; the result is its group 1, the payload.
\<close>

fun base64Match :: "jsstring \<Rightarrow> jsstring option" where
  "base64Match [] = None"
| "base64Match (c # cs) =
     (case wrapper_at False (c # cs) of
        Some w \<Rightarrow> Some (snd w)
      | None \<Rightarrow> base64Match cs)"

text \<open>The \<^verbatim>\<open>forEach\<close> that fills \<^verbatim>\<open>extractedGraphs\<close>.\<close>

fun extractedGraphs :: "jsstring list \<Rightarrow> jsstring list" where
  "extractedGraphs [] = []"
| "extractedGraphs (m # ms) =
     (case base64Match m of
        Some p \<Rightarrow> p # extractedGraphs ms
      | None \<Rightarrow> extractedGraphs ms)"

subsection \<open>The envelope \<^verbatim>\<open>__GRAPHS_START__[\s\S]*?__GRAPHS_END__\<close>\<close>

definition GRAPHS_START :: jsstring where
  "GRAPHS_START = str ''__GRAPHS_START__''"

definition GRAPHS_END :: jsstring where
  "GRAPHS_END = str ''__GRAPHS_END__''"

text \<open>
  \<^verbatim>\<open>formattedOutput.replace(/__GRAPHS_START__[\s\S]*?__GRAPHS_END__/g, '')\<close>: every
  match, left to right, is dropped from the text.
\<close>

function remove_graph_data :: "jsstring \<Rightarrow> jsstring" where
  "remove_graph_data [] = []"
| "remove_graph_data (c # cs) =
     (if prefix GRAPHS_START (c # cs) then
        (case lazy_until True GRAPHS_END (drop (length GRAPHS_START) (c # cs)) of
           Some body \<Rightarrow>
             remove_graph_data
               (drop (length GRAPHS_START + length body + length GRAPHS_END) (c # cs))
         | None \<Rightarrow> c # remove_graph_data cs)
      else c # remove_graph_data cs)"
  by pat_completeness auto
termination
  by (relation "measure length") (auto simp: GRAPHS_START_def str_def)

subsection \<open>Demultiplexing (lines 150 to 168 of \<^verbatim>\<open>handleRun\<close>)\<close>

text \<open>
  The text that \<^verbatim>\<open>setOutput\<close> receives and the list that \<^verbatim>\<open>setGraphs\<close> receives,
  from \<^verbatim>\<open>formattedOutput\<close>.
\<close>

definition demultiplex :: "jsstring \<Rightarrow> jsstring \<times> jsstring list" where
  "demultiplex formattedOutput =
     (case graph_matches formattedOutput of
        [] \<Rightarrow> (formattedOutput, [])
      | m # ms \<Rightarrow> (trim (remove_graph_data formattedOutput), extractedGraphs (m # ms)))"

section \<open>The remote service and the component's state\<close>

text \<open>
  \<^verbatim>\<open>runCode(code, stdin, notebookId)\<close> of \<^verbatim>\<open>services/api\<close> posts
  \<^verbatim>\<open>{ code, stdin, notebook_id: notebookId }\<close> to \<^verbatim>\<open>/run\<close>; an argument that is
  not passed is \<^verbatim>\<open>undefined\<close> and the field is left out of the request.
\<close>

record request =
  code :: jsstring
  stdin :: "jsstring option"
  notebook_id :: "jsstring option"

text \<open>\<^verbatim>\<open>CodeExecutionResponse\<close>; its \<^verbatim>\<open>execution_time\<close> is never read.\<close>

record CodeExecutionResponse =
  success :: bool
  stdout :: jsstring
  stderr :: jsstring

text \<open>
  What the handlers read of a thrown error: \<^verbatim>\<open>error.code\<close>, \<^verbatim>\<open>error.message\<close> and
  \<^verbatim>\<open>error.response?.data?.detail\<close>, each of which may be absent.
\<close>

record js_error =
  err_code :: "jsstring option"
  err_message :: "jsstring option"
  err_detail :: "jsstring option"

text \<open>The \<^verbatim>\<open>await\<close> either yields the response or throws.\<close>

datatype outcome = Returned CodeExecutionResponse | Threw js_error

datatype cell_kind = Code | Markdown

text \<open>\<^verbatim>\<open>interface NotebookCell\<close>; the optional fields are options.\<close>

record NotebookCell =
  cell_id :: jsstring
  cell_type :: cell_kind
  cell_content :: jsstring
  cell_output :: "jsstring option"
  cell_isExecuting :: "bool option"
  cell_isEditing :: "bool option"

record source_file =
  file_name :: jsstring
  file_content :: jsstring

text \<open>
  The \<^verbatim>\<open>useState\<close> variables of \<^verbatim>\<open>PythonLab\<close> that its run handlers read or write.
  \<^verbatim>\<open>executionTime\<close> and \<^verbatim>\<open>memoryUsed\<close> (a clock reading and a random number) are left
  out, as are the variables of the layout and of the dialogs. \<^verbatim>\<open>notebookId\<close> has no
  setter. \<^verbatim>\<open>output\<close> is \<open>outputText\<close> here.
\<close>

record lab =
  outputText :: jsstring
  isExecuting :: bool
  userInput :: jsstring
  waitingForInput :: bool
  notebookCells :: "NotebookCell list"
  notebookId :: jsstring
  files :: "source_file list"
  activeFileIndex :: nat
  graphs :: "jsstring list"
  currentGraphIndex :: nat

text \<open>
  The state when the component mounts (the arguments of the \<^verbatim>\<open>useState\<close> calls); the
  notebook id is drawn from the clock and a random number there, so it is a parameter.
\<close>

definition initial_lab :: "jsstring \<Rightarrow> lab" where
  \<open>initial_lab nid =
     \<lparr>outputText = [], isExecuting = False, userInput = [], waitingForInput = False,
      notebookCells =
        [\<lparr>cell_id = str ''1'', cell_type = Markdown,
          cell_content =
            str ''# Welcome to Notebook Mode\<newline>\<newline>Create and run code cells!'',
          cell_output = None, cell_isExecuting = None, cell_isEditing = Some False\<rparr>,
         \<lparr>cell_id = str ''2'', cell_type = Code,
          cell_content =
            str ''print("Hello from Notebook!")\<newline>print("Run me!")'',
          cell_output = Some [], cell_isExecuting = None, cell_isEditing = None\<rparr>],
      notebookId = nid,
      files =
        [\<lparr>file_name = str ''main.py'',
          file_content =
            str ''# Python Lab\<newline># Write your Python code here\<newline>\<newline>print("Welcome to Python Lab!")\<newline>''\<rparr>],
      activeFileIndex = 0, graphs = [], currentGraphIndex = 0\<rparr>\<close>

text \<open>
  What lies outside the component when a handler runs: what \<^verbatim>\<open>window.prompt\<close> answers
  to a message (\<open>None\<close> is \<^verbatim>\<open>null\<close>, the dialog cancelled) and how the \<^verbatim>\<open>await\<close> of
  \<^verbatim>\<open>runCode\<close> settles for a request.
\<close>

record world =
  prompt :: "jsstring \<Rightarrow> jsstring option"
  runCode :: "request \<Rightarrow> outcome"

text \<open>What a handler does to the world, in order: the requests it sends, how each
  settles, and the \<^verbatim>\<open>setTimeout\<close> delays it waits for, in milliseconds.\<close>

datatype event = Dispatch request | Settled outcome | Delay nat

section \<open>\<^verbatim>\<open>handleRun\<close>\<close>

text \<open>\<^verbatim>\<open>files[activeFileIndex]?.content || ''\<close>\<close>

definition currentCode :: "lab \<Rightarrow> jsstring" where
  "currentCode st =
     (if activeFileIndex st < length (files st)
      then file_content (files st ! activeFileIndex st) else [])"

text \<open>The message of line 130; its first code unit is U+23F3.\<close>

definition needs_input_message :: "nat \<Rightarrow> jsstring" where
  "needs_input_message n =
     [0x23F3] @ str '' Your code needs '' @ decimal n @ str '' input'' @
     (if n > 1 then str ''s'' else []) @
     str ''.\<newline>Enter them below (one per line, or space-separated):\<newline>''"

text \<open>
  \<^verbatim>\<open>error.code === 'ECONNABORTED' || error.message?.includes('timeout')\<close>, the test
  both \<^verbatim>\<open>catch\<close> blocks that classify a timeout use.
\<close>

definition isTimeout :: "js_error \<Rightarrow> bool" where
  "isTimeout error =
     (err_code error = Some (str ''ECONNABORTED'') \<or>
      (case err_message error of None \<Rightarrow> False | Some m \<Rightarrow> includes_js m (str ''timeout'')))"

text \<open>A string is truthy when it is there and not empty.\<close>

definition truthy :: "jsstring option \<Rightarrow> bool" where
  "truthy v = (case v of None \<Rightarrow> False | Some s \<Rightarrow> s \<noteq> [])"

text \<open>\<^verbatim>\<open>errorMsg\<close> of the \<^verbatim>\<open>catch\<close> block of \<^verbatim>\<open>handleRun\<close> (lines 177 to 185).\<close>

definition timeout_message :: jsstring where
  "timeout_message =
     str ''Execution timeout: Code took longer than '' @ decimal (125000 div 1000) @
     str '' seconds.\<newline>Please optimize your code or reduce the workload.''"

definition errorMsg :: "js_error \<Rightarrow> jsstring" where
  "errorMsg error =
     (if isTimeout error then timeout_message
      else if truthy (err_detail error) then the (err_detail error)
      else if truthy (err_message error) then the (err_message error)
      else str ''Unknown error occurred'')"

text \<open>
  The part of \<^verbatim>\<open>handleRun\<close> that runs before the \<^verbatim>\<open>await\<close>: the state it leaves and
  the request it hands to \<^verbatim>\<open>runCode\<close>, if it gets that far.
\<close>

definition handleRun_begin :: "lab \<Rightarrow> lab \<times> request option" where
  "handleRun_begin st =
     (if isExecuting st then (st, None)
      else
        let st1 = st\<lparr>graphs := [], currentGraphIndex := 0\<rparr>;
            n = inputCount (currentCode st)
        in if n > 0 \<and> trim (userInput st) = []
           then (st1\<lparr>waitingForInput := True, outputText := needs_input_message n\<rparr>, None)
           else (st1\<lparr>isExecuting := True, waitingForInput := False,
                      outputText := str ''Executing...\<newline>''\<rparr>,
                 Some \<lparr>code = currentCode st, stdin = Some (userInput st),
                       notebook_id = None\<rparr>))"

text \<open>
  The part after the \<^verbatim>\<open>await\<close>: the rest of the \<^verbatim>\<open>try\<close> block or the \<^verbatim>\<open>catch\<close>
  block, then the \<^verbatim>\<open>finally\<close> block.
\<close>

definition handleRun_resume :: "outcome \<Rightarrow> lab \<Rightarrow> lab" where
  "handleRun_resume oc st =
     (let st' =
        (case oc of
           Returned result \<Rightarrow>
             (if success result then
                let formattedOutput =
                      (if stdout result = [] then str ''Success (no output)''
                       else stdout result)
                in (case graph_matches formattedOutput of
                      [] \<Rightarrow> st\<lparr>graphs := []\<rparr>
                    | m # ms \<Rightarrow> st\<lparr>graphs := snd (demultiplex formattedOutput),
                                  currentGraphIndex := 0\<rparr>)
                   \<lparr>outputText := fst (demultiplex formattedOutput)\<rparr>
              else st\<lparr>outputText := str ''Error:\<newline>'' @ stderr result\<rparr>)
             \<lparr>userInput := []\<rparr>
         | Threw error \<Rightarrow>
             st\<lparr>outputText := str ''Error:\<newline>'' @ errorMsg error, graphs := []\<rparr>)
      in st'\<lparr>isExecuting := False, waitingForInput := False\<rparr>)"

text \<open>A whole run in the world \<open>w\<close>, when no other handler runs during the \<^verbatim>\<open>await\<close>.\<close>

definition handleRun :: "world \<Rightarrow> lab \<Rightarrow> lab \<times> event list" where
  "handleRun w st =
     (case handleRun_begin st of
        (st', None) \<Rightarrow> (st', [])
      | (st', Some req) \<Rightarrow>
          (handleRun_resume (runCode w req) st', [Dispatch req, Settled (runCode w req)]))"

section \<open>\<^verbatim>\<open>runNotebookCell\<close> and \<^verbatim>\<open>runAllCells\<close>\<close>

text \<open>
  \<^verbatim>\<open>runNotebookCell\<close> reads \<^verbatim>\<open>notebookCells\<close> through its closure: the value of the
  render that created the handler, \<open>cells\<close> below. Every \<^verbatim>\<open>setNotebookCells\<close> call of
  the handler passes a list computed from that value, before and after the \<^verbatim>\<open>await\<close>.
\<close>

definition prompt_message :: "nat \<Rightarrow> jsstring" where
  "prompt_message n =
     str ''This cell requires '' @ decimal n @ str '' input value'' @
     (if n > 1 then str ''s'' else []) @ str ''.\<newline>'' @
     str ''Enter them separated by spaces or newlines:''"

text \<open>\<^verbatim>\<open>c.id === id ? { ...c, isExecuting: true, output: 'Running...' } : c\<close>\<close>

definition mark_running :: "jsstring \<Rightarrow> NotebookCell list \<Rightarrow> NotebookCell list" where
  "mark_running cid cells =
     map (\<lambda>c. if cell_id c = cid
              then c\<lparr>cell_isExecuting := Some True, cell_output := Some (str ''Running...'')\<rparr>
              else c) cells"

text \<open>\<^verbatim>\<open>c.id === id ? { ...c, isExecuting: false, output: text } : c\<close>\<close>

definition mark_done :: "jsstring \<Rightarrow> jsstring \<Rightarrow> NotebookCell list \<Rightarrow> NotebookCell list" where
  "mark_done cid shown cells =
     map (\<lambda>c. if cell_id c = cid
              then c\<lparr>cell_isExecuting := Some False, cell_output := Some shown\<rparr>
              else c) cells"

text \<open>\<^verbatim>\<open>c.id === id ? { ...c, output: 'Execution cancelled - input required' } : c\<close>\<close>

definition mark_cancelled :: "jsstring \<Rightarrow> NotebookCell list \<Rightarrow> NotebookCell list" where
  "mark_cancelled cid cells =
     map (\<lambda>c. if cell_id c = cid
              then c\<lparr>cell_output := Some (str ''Execution cancelled - input required'')\<rparr>
              else c) cells"

text \<open>\<^verbatim>\<open>result.success ? result.stdout : `ERROR:\n${result.stderr}`\<close>\<close>

definition cell_result_text :: "CodeExecutionResponse \<Rightarrow> jsstring" where
  "cell_result_text result =
     (if success result then stdout result else str ''ERROR:\<newline>'' @ stderr result)"

text \<open>\<^verbatim>\<open>errorMsg\<close> of the \<^verbatim>\<open>catch\<close> block of the branch that asked for input
  (lines 273 to 276).\<close>

definition cell_errorMsg :: "js_error \<Rightarrow> jsstring" where
  "cell_errorMsg error =
     (if isTimeout error then str ''Execution timeout - code took too long to execute''
      else if truthy (err_message error) then the (err_message error)
      else str ''Unknown error'')"

text \<open>\<^verbatim>\<open>${error.message}\<close> of the other \<^verbatim>\<open>catch\<close> block (line 307): an absent message
  prints as \<^verbatim>\<open>undefined\<close>.\<close>

definition template_message :: "js_error \<Rightarrow> jsstring" where
  "template_message error =
     (case err_message error of None \<Rightarrow> str ''undefined'' | Some m \<Rightarrow> m)"

text \<open>Up to the \<^verbatim>\<open>await\<close>: the state left and the request handed to \<^verbatim>\<open>runCode\<close>, if
  the handler gets that far.\<close>

definition runNotebookCell_begin ::
  "world \<Rightarrow> NotebookCell list \<Rightarrow> jsstring \<Rightarrow> lab \<Rightarrow> lab \<times> request option" where
  "runNotebookCell_begin w cells cid st =
     (case find (\<lambda>c. cell_id c = cid) cells of
        None \<Rightarrow> (st, None)
      | Some cell \<Rightarrow>
          if cell_type cell = Markdown then (st, None)
          else
            let n = inputCount (cell_content cell)
            in if n > 0 then
                 (case prompt w (prompt_message n) of
                    None \<Rightarrow> (st\<lparr>notebookCells := mark_cancelled cid cells\<rparr>, None)
                  | Some inputPrompt \<Rightarrow>
                      (st\<lparr>notebookCells := mark_running cid cells\<rparr>,
                       Some \<lparr>code = cell_content cell, stdin = Some inputPrompt,
                             notebook_id = Some (notebookId st)\<rparr>))
               else
                 (st\<lparr>notebookCells := mark_running cid cells\<rparr>,
                  Some \<lparr>code = cell_content cell, stdin = Some [],
                        notebook_id = Some (notebookId st)\<rparr>))"

text \<open>
  After the \<^verbatim>\<open>await\<close>, in the branch the handler took before it: the rest of the
  \<^verbatim>\<open>try\<close> block, or the \<^verbatim>\<open>catch\<close> block of that branch.
\<close>

definition runNotebookCell_resume ::
  "NotebookCell list \<Rightarrow> jsstring \<Rightarrow> outcome \<Rightarrow> lab \<Rightarrow> lab" where
  "runNotebookCell_resume cells cid oc st =
     (case find (\<lambda>c. cell_id c = cid) cells of
        None \<Rightarrow> st
      | Some cell \<Rightarrow>
          (case oc of
             Returned result \<Rightarrow>
               st\<lparr>notebookCells := mark_done cid (cell_result_text result) cells\<rparr>
           | Threw error \<Rightarrow>
               if inputCount (cell_content cell) > 0
               then st\<lparr>notebookCells :=
                        mark_done cid (str ''ERROR:\<newline>'' @ cell_errorMsg error) cells\<rparr>
               else st\<lparr>notebookCells :=
                        mark_done cid (str ''ERROR:\<newline>'' @ template_message error) cells\<rparr>))"

definition runNotebookCell ::
  "world \<Rightarrow> NotebookCell list \<Rightarrow> jsstring \<Rightarrow> lab \<Rightarrow> lab \<times> event list" where
  "runNotebookCell w cells cid st =
     (case runNotebookCell_begin w cells cid st of
        (st', None) \<Rightarrow> (st', [])
      | (st', Some req) \<Rightarrow>
          (runNotebookCell_resume cells cid (runCode w req) st',
           [Dispatch req, Settled (runCode w req)]))"

text \<open>
  The loop of \<^verbatim>\<open>runAllCells\<close> over its own \<^verbatim>\<open>notebookCells\<close>, \<open>cells\<close>: \<open>rest\<close> is
  what is left of the list and \<open>k\<close> the index of its head. The \<^verbatim>\<open>runNotebookCell\<close> it
  calls is the one of the same render, so it reads \<open>cells\<close> too. \<open>env k\<close> is the world
  while the cell at index \<open>k\<close> runs.
\<close>

fun runAllCells_loop ::
  "(nat \<Rightarrow> world) \<Rightarrow> NotebookCell list \<Rightarrow> nat \<Rightarrow> NotebookCell list \<Rightarrow> lab \<Rightarrow> lab \<times> event list"
  where
  "runAllCells_loop env cells k [] st = (st, [])"
| "runAllCells_loop env cells k (cell # rest) st =
     (if cell_type cell = Code then
        (case runNotebookCell (env k) cells (cell_id cell) st of
           (st', evs) \<Rightarrow>
             (case runAllCells_loop env cells (Suc k) rest st' of
                (st'', evs') \<Rightarrow> (st'', evs @ [Delay 300] @ evs')))
      else runAllCells_loop env cells (Suc k) rest st)"

definition runAllCells :: "(nat \<Rightarrow> world) \<Rightarrow> lab \<Rightarrow> lab \<times> event list" where
  "runAllCells env st = runAllCells_loop env (notebookCells st) 0 (notebookCells st) st"

section \<open>Sample worlds and states\<close>

text \<open>A notebook id of the shape line 29 builds.\<close>

definition sample_id :: jsstring where
  "sample_id = str ''notebook_1762162800000_k3x9q2a7b''"

text \<open>The world in which every prompt is cancelled and every request settles as \<open>oc\<close>,
  and the one in which every prompt is answered with \<open>inp\<close>.\<close>

definition settles :: "outcome \<Rightarrow> world" where
  "settles oc = \<lparr>prompt = (\<lambda>m. None), runCode = (\<lambda>r. oc)\<rparr>"

definition answers :: "jsstring \<Rightarrow> outcome \<Rightarrow> world" where
  "answers inp oc = \<lparr>prompt = (\<lambda>m. Some inp), runCode = (\<lambda>r. oc)\<rparr>"

text \<open>A successful response with the given stdout, and a response the service marks as
  failed with the given stderr.\<close>

definition succeeded :: "jsstring \<Rightarrow> outcome" where
  "succeeded out = Returned \<lparr>success = True, stdout = out, stderr = []\<rparr>"

definition failed :: "jsstring \<Rightarrow> outcome" where
  "failed err = Returned \<lparr>success = False, stdout = [], stderr = err\<rparr>"

text \<open>The state after mount with the text of the one file replaced, as
  \<^verbatim>\<open>updateCurrentFileContent\<close> does, and with the cells replaced; code and markdown
  cells as \<^verbatim>\<open>addNotebookCell\<close> builds them.\<close>

definition lab_with_code :: "jsstring \<Rightarrow> lab" where
  "lab_with_code src =
     (initial_lab sample_id)\<lparr>files := [\<lparr>file_name = str ''main.py'', file_content = src\<rparr>]\<rparr>"

definition lab_with_cells :: "NotebookCell list \<Rightarrow> lab" where
  "lab_with_cells cells = (initial_lab sample_id)\<lparr>notebookCells := cells\<rparr>"

definition code_cell :: "jsstring \<Rightarrow> jsstring \<Rightarrow> NotebookCell" where
  "code_cell cid src =
     \<lparr>cell_id = cid, cell_type = Code, cell_content = src, cell_output = Some [],
      cell_isExecuting = None, cell_isEditing = None\<rparr>"

definition markdown_cell :: "jsstring \<Rightarrow> jsstring \<Rightarrow> NotebookCell" where
  "markdown_cell cid src =
     \<lparr>cell_id = cid, cell_type = Markdown, cell_content = src, cell_output = Some [],
      cell_isExecuting = None, cell_isEditing = None\<rparr>"

text \<open>The error axios throws when its 125 second timeout fires, and the one it throws
  when the service cannot be reached.\<close>

definition timeout_error :: js_error where
  "timeout_error =
     \<lparr>err_code = Some (str ''ECONNABORTED''),
      err_message = Some (str ''timeout of 125000ms exceeded''), err_detail = None\<rparr>"

definition network_error :: js_error where
  "network_error =
     \<lparr>err_code = Some (str ''ERR_NETWORK''),
      err_message = Some (str ''Network Error''), err_detail = None\<rparr>"

text \<open>
  Two cell runs that overlap. Cell 2 is started from the notebook \<open>two_cells\<close>; cell 7
  is started from the render that follows, whose \<^verbatim>\<open>notebookCells\<close> shows cell 2 as
  executing; the request of cell 2 settles first and its handler writes from the list
  it captured; then the request of cell 7 settles and its handler writes from the list
  it captured.
\<close>

definition two_cells :: lab where
  "two_cells =
     lab_with_cells [code_cell (str ''2'') (str ''print(2)''),
                     code_cell (str ''7'') (str ''print(7)'')]"

definition cell_2_started :: lab where
  "cell_2_started =
     fst (runNotebookCell_begin (settles (succeeded (str ''2'')))
            (notebookCells two_cells) (str ''2'') two_cells)"

definition cell_7_started :: lab where
  "cell_7_started =
     fst (runNotebookCell_begin (settles (succeeded (str ''7'')))
            (notebookCells cell_2_started) (str ''7'') cell_2_started)"

definition cell_2_settled :: lab where
  "cell_2_settled =
     runNotebookCell_resume (notebookCells two_cells) (str ''2'')
       (succeeded (str ''2'')) cell_7_started"

definition cell_7_settled :: lab where
  "cell_7_settled =
     runNotebookCell_resume (notebookCells cell_2_started) (str ''7'')
       (succeeded (str ''7'')) cell_2_settled"

section \<open>The call sites in the words of the specification\<close>

text \<open>
  The number of interactive-input call sites of a source text: the places at which the
  token \<^verbatim>\<open>input(\<close> stands, counted one by one.
\<close>

fun call_sites :: "jsstring \<Rightarrow> nat" where
  "call_sites [] = 0"
| "call_sites (c # cs) = (if prefix (str ''input('') (c # cs) then 1 else 0) + call_sites cs"

section \<open>A well-formed wrapper in the words of the specification\<close>

text \<open>
  The text holds a wrapper \<^verbatim>\<open><MARK_BEGIN>_<ordinal>_<payload>_<MARK_END>\<close>: the begin
  marker, an ordinal of at least one digit, the separator, a payload that is not empty,
  the end marker.
\<close>

definition holds_wrapper :: "jsstring \<Rightarrow> bool" where
  "holds_wrapper s =
     (\<exists>a d p r. s = a @ GRAPH_BEGIN @ d @ GRAPH_SEP @ p @ GRAPH_END @ r \<and>
        d \<noteq> [] \<and> (\<forall>c \<in> set d. isDigit c) \<and> p \<noteq> [])"

section \<open>The run sequence in the words of the specification\<close>

text \<open>
  The stdin a code cell is run with: the answer to the prompt when its code holds
  \<^verbatim>\<open>input(\<close>, the empty string otherwise; none when the prompt is cancelled.
\<close>

definition cell_stdin :: "world \<Rightarrow> NotebookCell \<Rightarrow> jsstring option" where
  "cell_stdin w c =
     (if inputCount (cell_content c) > 0
      then prompt w (prompt_message (inputCount (cell_content c)))
      else Some [])"

text \<open>
  The sequence the specification describes for a batch run, read off the cells alone:
  the cells are taken in their order; a markdown cell contributes nothing; a code cell
  contributes one request bound to the session id \<open>nid\<close>, settled before anything else
  happens, and then the settling delay of 300 ms. The specification is silent on the
  prompt of a notebook cell: here a code cell whose prompt is cancelled contributes the
  delay only.
\<close>

fun sequenced_trace :: "(nat \<Rightarrow> world) \<Rightarrow> jsstring \<Rightarrow> nat \<Rightarrow> NotebookCell list \<Rightarrow> event list"
  where
  "sequenced_trace env nid k [] = []"
| "sequenced_trace env nid k (c # cs) =
     (if cell_type c = Code then
        (case cell_stdin (env k) c of
           None \<Rightarrow> []
         | Some inp \<Rightarrow>
             [Dispatch \<lparr>code = cell_content c, stdin = Some inp, notebook_id = Some nid\<rparr>,
              Settled (runCode (env k)
                \<lparr>code = cell_content c, stdin = Some inp, notebook_id = Some nid\<rparr>)]) @
        [Delay 300]
      else []) @
     sequenced_trace env nid (Suc k) cs"

text \<open>The requests of a trace, in order.\<close>

fun dispatched :: "event list \<Rightarrow> request list" where
  "dispatched [] = []"
| "dispatched (Dispatch r # evs) = r # dispatched evs"
| "dispatched (Settled oc # evs) = dispatched evs"
| "dispatched (Delay ms # evs) = dispatched evs"

section \<open>Facts about the regular expressions\<close>

lemmas marker_defs = GRAPH_BEGIN_def GRAPH_SEP_def GRAPH_END_def GRAPHS_START_def GRAPHS_END_def

lemmas fixture_defs = sample_id_def settles_def answers_def succeeded_def failed_def
  lab_with_code_def lab_with_cells_def code_cell_def markdown_cell_def initial_lab_def

lemmas handler_defs = handleRun_def handleRun_begin_def handleRun_resume_def currentCode_def
  runNotebookCell_def runNotebookCell_begin_def runNotebookCell_resume_def runAllCells_def
  mark_running_def mark_done_def mark_cancelled_def cell_result_text_def
  inputCount_def match_input_def

lemma find_first_None_iff: "find_first pat s = None \<longleftrightarrow> \<not> sublist pat s"
  by (induction s) (auto simp: sublist_Cons_right)

lemma includes_js_iff: "includes_js s pat \<longleftrightarrow> sublist pat s"
  by (simp add: includes_js_def find_first_None_iff)

lemma wrapper_at_no_begin: "\<not> prefix GRAPH_BEGIN s \<Longrightarrow> wrapper_at dotall s = None"
  by (simp add: wrapper_at_def)

lemma lazy_until_sound:
  "lazy_until dotall pat s = Some b \<Longrightarrow> \<exists>r. s = b @ pat @ r"
proof (induction s arbitrary: b)
  case Nil
  then show ?case by (auto split: if_splits)
next
  case (Cons c cs)
  show ?case
  proof (cases "prefix pat (c # cs)")
    case True
    with Cons.prems show ?thesis by (auto simp: prefix_def)
  next
    case False
    with Cons.prems obtain b' where "lazy_until dotall pat cs = Some b'" "b = c # b'"
      by (auto split: if_splits)
    with Cons.IH show ?thesis by auto
  qed
qed

lemma wrapper_at_sound:
  assumes "wrapper_at dotall s = Some w"
  shows "\<exists>r. s = wrapper_text w @ r"
proof -
  from assms have p: "prefix GRAPH_BEGIN s"
    by (auto simp: wrapper_at_def split: if_splits)
  define r0 where "r0 = drop (length GRAPH_BEGIN) s"
  from p have s: "s = GRAPH_BEGIN @ r0" by (auto simp: r0_def prefix_def)
  define ds where "ds = takeWhile isDigit r0"
  define r1 where "r1 = dropWhile isDigit r0"
  have r0: "r0 = ds @ r1" by (simp add: ds_def r1_def)
  from assms p have sep: "prefix GRAPH_SEP r1"
    by (auto simp: wrapper_at_def Let_def r0_def r1_def split: if_splits)
  define r2 where "r2 = drop (length GRAPH_SEP) r1"
  from sep have r1: "r1 = GRAPH_SEP @ r2" by (auto simp: r2_def prefix_def)
  from assms p sep obtain c cs p' where r2: "r2 = c # cs" 
     and l: "lazy_until dotall GRAPH_END cs = Some p'" and w: "w = (ds, c # p')"
    by (auto simp: wrapper_at_def Let_def r0_def r1_def r2_def ds_def split: if_splits list.splits)
  from lazy_until_sound[OF l] obtain r where "cs = p' @ GRAPH_END @ r" by blast
  with s r0 r1 r2 w show ?thesis by (auto simp: wrapper_text_def)
qed

lemma graph_matches_none:
  "\<not> sublist GRAPH_BEGIN s \<Longrightarrow> graph_matches s = []"
proof (induction s)
  case Nil show ?case by simp
next
  case (Cons c cs)
  then have "\<not> prefix GRAPH_BEGIN (c # cs)" "\<not> sublist GRAPH_BEGIN cs"
    by (auto simp: sublist_Cons_right)
  with Cons.IH show ?case by (simp add: wrapper_at_no_begin)
qed

lemma wrapper_at_has_end:
  assumes "wrapper_at dotall s = Some w" shows "sublist GRAPH_END s"
proof -
  from wrapper_at_sound[OF assms] obtain r where "s = wrapper_text w @ r" by blast
  then have "s = (GRAPH_BEGIN @ fst w @ GRAPH_SEP @ snd w) @ GRAPH_END @ r"
    by (simp add: wrapper_text_def)
  then show ?thesis unfolding sublist_def by blast
qed

lemma graph_matches_no_end:
  "\<not> sublist GRAPH_END s \<Longrightarrow> graph_matches s = []"
proof (induction s)
  case Nil show ?case by simp
next
  case (Cons c cs)
  then have a: "\<not> sublist GRAPH_END cs" by (auto simp: sublist_Cons_right)
  have "wrapper_at True (c # cs) = None"
  proof (cases "wrapper_at True (c # cs)")
    case (Some w)
    from wrapper_at_has_end[OF this] Cons.prems show ?thesis by simp
  qed simp
  with Cons.IH a show ?case by simp
qed

lemma demultiplex_no_match: "graph_matches s = [] \<Longrightarrow> demultiplex s = (s, [])"
  by (simp add: demultiplex_def)

section \<open>Text without a wrapper\<close>

lemma wrapper_at_well_formed:
  assumes "wrapper_at dotall s = Some w"
  shows "fst w \<noteq> [] \<and> (\<forall>c \<in> set (fst w). isDigit c) \<and> snd w \<noteq> []"
proof -
  from assms have p: "prefix GRAPH_BEGIN s"
    by (auto simp: wrapper_at_def split: if_splits)
  define ds where "ds = takeWhile isDigit (drop (length GRAPH_BEGIN) s)"
  from assms p have "ds \<noteq> []" and "\<exists>c q. w = (ds, c # q)"
    by (auto simp: wrapper_at_def Let_def ds_def split: if_splits list.splits)
  moreover have "\<forall>c \<in> set ds. isDigit c"
    by (auto simp: ds_def dest: set_takeWhileD)
  ultimately show ?thesis by auto
qed

lemma graph_matches_holds_wrapper:
  "graph_matches s \<noteq> [] \<Longrightarrow> holds_wrapper s"
proof (induction s)
  case Nil
  then show ?case by simp
next
  case (Cons c cs)
  show ?case
  proof (cases "wrapper_at True (c # cs)")
    case None
    with Cons have "holds_wrapper cs" by simp
    then obtain a d p r where "cs = a @ GRAPH_BEGIN @ d @ GRAPH_SEP @ p @ GRAPH_END @ r"
      and "d \<noteq> []" "\<forall>c \<in> set d. isDigit c" "p \<noteq> []"
      unfolding holds_wrapper_def by blast
    then have "c # cs = (c # a) @ GRAPH_BEGIN @ d @ GRAPH_SEP @ p @ GRAPH_END @ r \<and>
        d \<noteq> [] \<and> (\<forall>c \<in> set d. isDigit c) \<and> p \<noteq> []" by simp
    then show ?thesis unfolding holds_wrapper_def by blast
  next
    case (Some w)
    from wrapper_at_sound [OF Some] obtain r where "c # cs = wrapper_text w @ r" by blast
    then have "c # cs = [] @ GRAPH_BEGIN @ fst w @ GRAPH_SEP @ snd w @ GRAPH_END @ r"
      by (simp add: wrapper_text_def)
    with wrapper_at_well_formed [OF Some] show ?thesis unfolding holds_wrapper_def by blast
  qed
qed

lemma no_marker_no_wrapper:
  assumes "\<not> sublist GRAPH_BEGIN s \<or> \<not> sublist GRAPH_END s"
  shows "\<not> holds_wrapper s"
proof
  assume "holds_wrapper s"
  then obtain a d p r where s: "s = a @ GRAPH_BEGIN @ d @ GRAPH_SEP @ p @ GRAPH_END @ r"
    unfolding holds_wrapper_def by blast
  then have "sublist GRAPH_BEGIN s" unfolding sublist_def by blast
  moreover from s have "s = (a @ GRAPH_BEGIN @ d @ GRAPH_SEP @ p) @ GRAPH_END @ r" by simp
  then have "sublist GRAPH_END s" unfolding sublist_def by blast
  ultimately show False using assms by blast
qed

text \<open>
  Claim C7. A text that holds no well-formed wrapper, and so every text in which the
  begin marker \<^verbatim>\<open>__GRAPH_\<close> does not occur and every text in which the end marker
  \<^verbatim>\<open>__GRAPH_END__\<close> does not occur (a begin marker, if any, has no end marker to
  match), is returned by the demultiplexing as it is, with no graph, and demultiplexing
  the result again changes nothing. \<open>demultiplex\<close> is a total function, so there is no
  error to raise. A successful run whose stdout is such a text, not empty, displays it
  verbatim and leaves the graph list empty.
\<close>

theorem demultiplex_clean_text:
  assumes "\<not> sublist GRAPH_BEGIN s \<or> \<not> sublist GRAPH_END s \<or> \<not> holds_wrapper s"
  shows "demultiplex s = (s, []) \<and>
         demultiplex (fst (demultiplex s)) = demultiplex s \<and>
         (s \<noteq> [] \<longrightarrow>
            outputText (handleRun_resume
              (Returned \<lparr>success = True, stdout = s, stderr = e\<rparr>) st) = s \<and>
            graphs (handleRun_resume
              (Returned \<lparr>success = True, stdout = s, stderr = e\<rparr>) st) = [])"
proof -
  from assms have "\<not> holds_wrapper s" using no_marker_no_wrapper by blast
  then have m: "graph_matches s = []" using graph_matches_holds_wrapper by blast
  then have d: "demultiplex s = (s, [])" by (rule demultiplex_no_match)
  show ?thesis using m d by (simp add: handleRun_resume_def)
qed

theorem demultiplex_clean_text_witness:
  "demultiplex (str ''plot: __GRAPH_0__XYZ'') = (str ''plot: __GRAPH_0__XYZ'', []) \<and>
   demultiplex (str ''4 + 4 = 8'') = (str ''4 + 4 = 8'', []) \<and>
   outputText (handleRun_resume
     (Returned \<lparr>success = True, stdout = str ''plot: __GRAPH_0__XYZ'', stderr = []\<rparr>)
     (initial_lab sample_id)) = str ''plot: __GRAPH_0__XYZ''"
  using demultiplex_clean_text
          [of "str ''plot: __GRAPH_0__XYZ''" "[]" "initial_lab sample_id"]
        demultiplex_clean_text [of "str ''4 + 4 = 8''"]
  by (simp add: sublist_Cons_right marker_defs str_def)

section \<open>Empty stdout\<close>

text \<open>
  Claim C10. When a run in the editor succeeds with an empty stdout, the text shown is
  the placeholder \<^verbatim>\<open>Success (no output)\<close>: \<^verbatim>\<open>formattedOutput\<close> is the placeholder
  before the graphs are looked for, so what is shown is the demultiplexed placeholder,
  and no graph is found in it.
\<close>

theorem empty_stdout_placeholder:
  assumes "success result" and "stdout result = []"
  shows "outputText (handleRun_resume (Returned result) st) = str ''Success (no output)'' \<and>
         outputText (handleRun_resume (Returned result) st) =
           fst (demultiplex (str ''Success (no output)'')) \<and>
         graphs (handleRun_resume (Returned result) st) = []"
proof -
  have "\<not> sublist GRAPH_BEGIN (str ''Success (no output)'')"
    by (simp add: sublist_Cons_right GRAPH_BEGIN_def str_def)
  then have m: "graph_matches (str ''Success (no output)'') = []"
    by (rule graph_matches_none)
  then have "demultiplex (str ''Success (no output)'') = (str ''Success (no output)'', [])"
    by (rule demultiplex_no_match)
  with m assms show ?thesis by (simp add: handleRun_resume_def)
qed

theorem empty_stdout_placeholder_witness:
  "outputText (handleRun_resume (Returned \<lparr>success = True, stdout = [], stderr = []\<rparr>)
     (initial_lab sample_id)) = str ''Success (no output)''"
  using empty_stdout_placeholder
    [of "\<lparr>success = True, stdout = [], stderr = []\<rparr>" "initial_lab sample_id"]
  by simp

section \<open>Text with one wrapper\<close>

lemma prefix_before_occurrence:
  assumes "prefix pat (b @ pat @ r)" and "b \<noteq> []"
  shows "prefix pat (b @ butlast pat)"
proof (cases "pat = []")
  case True
  then show ?thesis by simp
next
  case False
  have t: "take (length b + (length pat - 1)) (b @ pat @ r) = b @ butlast pat"
    by (simp add: butlast_conv_take)
  have "prefix (take (length b + (length pat - 1)) (b @ pat @ r)) (b @ pat @ r)"
    by (rule take_is_prefix)
  with t have q: "prefix (b @ butlast pat) (b @ pat @ r)" by simp
  from assms(2) False have "length pat \<le> length (b @ butlast pat)"
    by (cases b) simp_all
  from prefix_length_prefix [OF assms(1) q this] show ?thesis .
qed

lemma no_prefix_before_occurrence:
  assumes "\<not> sublist pat (b @ butlast pat)" and "b \<noteq> []"
  shows "\<not> prefix pat (b @ pat @ r)"
  using assms prefix_before_occurrence [of pat b r] by (auto dest: prefix_imp_sublist)

lemma lazy_until_first:
  assumes "pat \<noteq> []" and "\<not> sublist pat (b @ butlast pat)"
    and "dotall \<or> (\<forall>c \<in> set b. \<not> isLineTerminator c)"
  shows "lazy_until dotall pat (b @ pat @ r) = Some b"
  using assms(2,3)
proof (induction b)
  case Nil
  from assms(1) obtain x xs where "pat = x # xs" by (cases pat) auto
  then show ?case by simp
next
  case (Cons c b)
  from Cons.prems(1) have n: "\<not> prefix pat (c # b @ pat @ r)"
    using no_prefix_before_occurrence [of pat "c # b" r] by simp
  from Cons.prems(1) have "\<not> sublist pat (b @ butlast pat)"
    by (simp add: sublist_Cons_right)
  with Cons.IH Cons.prems(2) have "lazy_until dotall pat (b @ pat @ r) = Some b" by auto
  with n Cons.prems(2) show ?case by auto
qed

lemma GRAPH_SEP_not_digit: "takeWhile isDigit (GRAPH_SEP @ r) = [] \<and> dropWhile isDigit (GRAPH_SEP @ r) = GRAPH_SEP @ r"
  by (simp add: GRAPH_SEP_def str_def isDigit_def)

lemma marker_lengths:
  "GRAPH_BEGIN \<noteq> []" "GRAPH_END \<noteq> []" "GRAPHS_START \<noteq> []" "GRAPHS_END \<noteq> []"
  by (simp_all add: marker_defs str_def)

lemma wrapper_at_wrapper:
  assumes "d \<noteq> []" and "\<forall>c \<in> set d. isDigit c" and "p \<noteq> []"
    and "dotall \<or> (\<forall>c \<in> set p. \<not> isLineTerminator c)"
    and "\<not> sublist GRAPH_END (tl p @ butlast GRAPH_END)"
  shows "wrapper_at dotall (wrapper_text (d, p) @ r) = Some (d, p)"
proof -
  from assms(3) obtain c p' where p: "p = c # p'" by (cases p) auto
  have tw: "takeWhile isDigit (d @ GRAPH_SEP @ c # p' @ GRAPH_END @ r) = d"
    using assms(2) GRAPH_SEP_not_digit [of "c # p' @ GRAPH_END @ r"]
    by (simp add: takeWhile_append2)
  have dw: "dropWhile isDigit (d @ GRAPH_SEP @ c # p' @ GRAPH_END @ r) =
              GRAPH_SEP @ c # p' @ GRAPH_END @ r"
    using assms(2) GRAPH_SEP_not_digit [of "c # p' @ GRAPH_END @ r"]
    by (simp add: dropWhile_append2)
  have lz: "lazy_until dotall GRAPH_END (p' @ GRAPH_END @ r) = Some p'"
    using lazy_until_first [of GRAPH_END p' dotall r] assms(4,5) p marker_lengths(2) by auto
  have c: "dotall \<or> \<not> isLineTerminator c" using assms(4) p by auto
  show ?thesis
    using assms(1) c
    by (simp add: wrapper_at_def wrapper_text_def tw dw lz p Let_def)
qed

lemma graph_matches_one:
  assumes "d \<noteq> []" and "\<forall>c \<in> set d. isDigit c" and "p \<noteq> []"
    and "\<not> sublist GRAPH_END (tl p @ butlast GRAPH_END)"
    and "\<not> sublist GRAPH_BEGIN (P @ butlast GRAPH_BEGIN)"
  shows "graph_matches (P @ wrapper_text (d, p) @ Q) = wrapper_text (d, p) # graph_matches Q"
  using assms(5)
proof (induction P)
  case Nil
  have w: "wrapper_at True (wrapper_text (d, p) @ Q) = Some (d, p)"
    using wrapper_at_wrapper [of d p True Q] assms(1-4) by simp
  obtain c cs where e: "wrapper_text (d, p) @ Q = c # cs"
    using marker_lengths(1) by (cases "wrapper_text (d, p) @ Q") (auto simp: wrapper_text_def)
  have "graph_matches (c # cs) =
          wrapper_text (d, p) # graph_matches (drop (length (wrapper_text (d, p))) (c # cs))"
    using w e by simp
  with e show ?case by (metis append_Nil append_eq_conv_conj)
next
  case (Cons c P)
  have "\<not> prefix GRAPH_BEGIN ((c # P) @ GRAPH_BEGIN @ (d @ GRAPH_SEP @ p @ GRAPH_END @ Q))"
    using no_prefix_before_occurrence [OF Cons.prems] by simp
  then have n: "wrapper_at True (c # P @ wrapper_text (d, p) @ Q) = None"
    by (simp add: wrapper_at_no_begin wrapper_text_def)
  from Cons.prems have "\<not> sublist GRAPH_BEGIN (P @ butlast GRAPH_BEGIN)"
    by (simp add: sublist_Cons_right)
  with Cons.IH n show ?case by simp
qed

lemma base64Match_wrapper:
  assumes "d \<noteq> []" and "\<forall>c \<in> set d. isDigit c" and "p \<noteq> []"
    and "\<forall>c \<in> set p. \<not> isLineTerminator c"
    and "\<not> sublist GRAPH_END (tl p @ butlast GRAPH_END)"
  shows "base64Match (wrapper_text (d, p)) = Some p"
proof -
  have w: "wrapper_at False (wrapper_text (d, p)) = Some (d, p)"
    using wrapper_at_wrapper [of d p False "[]"] assms by simp
  obtain c cs where e: "wrapper_text (d, p) = c # cs"
    using marker_lengths(1) by (cases "wrapper_text (d, p)") (auto simp: wrapper_text_def)
  with w show ?thesis by simp
qed

lemma remove_graph_data_none: "\<not> sublist GRAPHS_START s \<Longrightarrow> remove_graph_data s = s"
proof (induction s)
  case Nil
  show ?case by simp
next
  case (Cons c s)
  then have "\<not> prefix GRAPHS_START (c # s)" "\<not> sublist GRAPHS_START s"
    by (auto simp: sublist_Cons_right)
  with Cons.IH show ?case by simp
qed

lemma remove_graph_data_envelope:
  assumes "\<not> sublist GRAPHS_START (pre @ butlast GRAPHS_START)"
    and "\<not> sublist GRAPHS_END (body @ butlast GRAPHS_END)"
  shows "remove_graph_data (pre @ GRAPHS_START @ body @ GRAPHS_END @ post) =
         pre @ remove_graph_data post"
  using assms(1)
proof (induction pre)
  case Nil
  obtain c cs where e: "GRAPHS_START @ body @ GRAPHS_END @ post = c # cs"
    using marker_lengths(3) by (cases "GRAPHS_START @ body @ GRAPHS_END @ post") auto
  have p: "prefix GRAPHS_START (c # cs)" using e by (metis prefixI)
  have dr: "drop (length GRAPHS_START) (c # cs) = body @ GRAPHS_END @ post"
    using e by (metis append_eq_conv_conj)
  have lz: "lazy_until True GRAPHS_END (body @ GRAPHS_END @ post) = Some body"
    using lazy_until_first [of GRAPHS_END body True post] assms(2) marker_lengths(4) by simp
  have dr2: "drop (length GRAPHS_START + length body + length GRAPHS_END) (c # cs) = post"
    using e by (metis (no_types, lifting) append.assoc append_eq_conv_conj length_append)
  have "remove_graph_data (c # cs) = remove_graph_data post"
    using p dr lz dr2 by simp
  with e show ?case by simp
next
  case (Cons c pre)
  have n: "\<not> prefix GRAPHS_START (c # pre @ GRAPHS_START @ body @ GRAPHS_END @ post)"
    using no_prefix_before_occurrence [OF Cons.prems] by simp
  from Cons.prems have "\<not> sublist GRAPHS_START (pre @ butlast GRAPHS_START)"
    by (simp add: sublist_Cons_right)
  with Cons.IH n show ?case by simp
qed

lemma demultiplex_one:
  assumes "d \<noteq> []" and "\<forall>c \<in> set d. isDigit c" and "p \<noteq> []"
    and "\<forall>c \<in> set p. \<not> isLineTerminator c"
    and "\<not> sublist GRAPH_END (tl p @ butlast GRAPH_END)"
    and "\<not> sublist GRAPH_BEGIN (P @ butlast GRAPH_BEGIN)"
    and "\<not> sublist GRAPH_BEGIN Q"
  shows "demultiplex (P @ wrapper_text (d, p) @ Q) =
           (trim (remove_graph_data (P @ wrapper_text (d, p) @ Q)), [p])"
proof -
  have "graph_matches (P @ wrapper_text (d, p) @ Q) = [wrapper_text (d, p)]"
    using graph_matches_one [OF assms(1,2,3,5,6), of Q] graph_matches_none [OF assms(7)]
    by simp
  moreover have "extractedGraphs [wrapper_text (d, p)] = [p]"
    using base64Match_wrapper [OF assms(1-5)] by simp
  ultimately show ?thesis by (simp add: demultiplex_def)
qed

lemma handleRun_resume_success:
  assumes "s \<noteq> []"
  shows "outputText (handleRun_resume (succeeded s) st) = fst (demultiplex s) \<and>
         graphs (handleRun_resume (succeeded s) st) = snd (demultiplex s)"
  using assms
  by (simp add: handleRun_resume_def succeeded_def demultiplex_def split: list.splits)

text \<open>
  The stdout \<^verbatim>\<open>A\n__GRAPH_0__XYZ__GRAPH_END__\nB\<close> of a successful run in the editor:
  the payload is extracted, but the wrapper stays in the text shown, which is not
  \<^verbatim>\<open>A\nB\<close>.
\<close>

theorem wrapper_span_stays_in_text:
  "outputText (handleRun_resume (succeeded (str ''A\<newline>__GRAPH_0__XYZ__GRAPH_END__\<newline>B''))
      (lab_with_code (str ''plot()''))) = str ''A\<newline>__GRAPH_0__XYZ__GRAPH_END__\<newline>B'' \<and>
   graphs (handleRun_resume (succeeded (str ''A\<newline>__GRAPH_0__XYZ__GRAPH_END__\<newline>B''))
      (lab_with_code (str ''plot()''))) = [str ''XYZ''] \<and>
   str ''A\<newline>__GRAPH_0__XYZ__GRAPH_END__\<newline>B'' \<noteq> str ''A\<newline>B''"
  by (simp add: fixture_defs handler_defs str_def trim_def demultiplex_def wrapper_at_def
        wrapper_text_def marker_defs isDigit_def isLineTerminator_def isWhiteSpace_def)

text \<open>
  Claim C1, amended. Let the stdout hold one wrapper
  \<^verbatim>\<open>__GRAPH_<digits>__<payload>__GRAPH_END__\<close>, the payload not empty, on one line and
  without the end marker from its second code unit on, and no other begin marker before
  or after it. Then the graph list is the payload alone. What the code removes from the
  text is not the span of the wrapper but every span from \<^verbatim>\<open>__GRAPHS_START__\<close> to the
  next \<^verbatim>\<open>__GRAPHS_END__\<close>: when the text holds no \<^verbatim>\<open>__GRAPHS_START__\<close>, the text
  shown is the whole text, wrapper included, trimmed; when the wrapper lies in such an
  envelope, the first of the text, the text shown is what stands before and after the
  envelope, trimmed. By \<open>handleRun_resume_success\<close> these are the \<^verbatim>\<open>output\<close> and the
  \<^verbatim>\<open>graphs\<close> of the editor after a successful run.
\<close>

theorem demultiplex_one_wrapper:
  assumes "d \<noteq> []" and "\<forall>c \<in> set d. isDigit c" and "p \<noteq> []"
    and "\<forall>c \<in> set p. \<not> isLineTerminator c"
    and "\<not> sublist GRAPH_END (tl p @ butlast GRAPH_END)"
    and "\<not> sublist GRAPH_BEGIN (P @ butlast GRAPH_BEGIN)"
    and "\<not> sublist GRAPH_BEGIN Q"
  shows "snd (demultiplex (P @ wrapper_text (d, p) @ Q)) = [p] \<and>
         (\<not> sublist GRAPHS_START (P @ wrapper_text (d, p) @ Q) \<longrightarrow>
            fst (demultiplex (P @ wrapper_text (d, p) @ Q)) =
              trim (P @ wrapper_text (d, p) @ Q)) \<and>
         (\<forall>pre b1 b2 post.
            P = pre @ GRAPHS_START @ b1 \<and> Q = b2 @ GRAPHS_END @ post \<and>
            \<not> sublist GRAPHS_START (pre @ butlast GRAPHS_START) \<and>
            \<not> sublist GRAPHS_END (b1 @ wrapper_text (d, p) @ b2 @ butlast GRAPHS_END) \<and>
            \<not> sublist GRAPHS_START post \<longrightarrow>
            fst (demultiplex (P @ wrapper_text (d, p) @ Q)) = trim (pre @ post))"
proof -
  note one = demultiplex_one [OF assms]
  have a: "snd (demultiplex (P @ wrapper_text (d, p) @ Q)) = [p]"
    by (simp add: one)
  have b: "fst (demultiplex (P @ wrapper_text (d, p) @ Q)) = trim (P @ wrapper_text (d, p) @ Q)"
    if "\<not> sublist GRAPHS_START (P @ wrapper_text (d, p) @ Q)"
    using that by (simp add: one remove_graph_data_none)
  have c: "fst (demultiplex (P @ wrapper_text (d, p) @ Q)) = trim (pre @ post)"
    if h: "P = pre @ GRAPHS_START @ b1 \<and> Q = b2 @ GRAPHS_END @ post \<and>
            \<not> sublist GRAPHS_START (pre @ butlast GRAPHS_START) \<and>
            \<not> sublist GRAPHS_END (b1 @ wrapper_text (d, p) @ b2 @ butlast GRAPHS_END) \<and>
            \<not> sublist GRAPHS_START post"
    for pre b1 b2 post
  proof -
    from h have "remove_graph_data
        (pre @ GRAPHS_START @ (b1 @ wrapper_text (d, p) @ b2) @ GRAPHS_END @ post) =
        pre @ remove_graph_data post"
      by (intro remove_graph_data_envelope) simp_all
    with h have "remove_graph_data (P @ wrapper_text (d, p) @ Q) = pre @ post"
      by (simp add: remove_graph_data_none)
    then show ?thesis by (simp add: one)
  qed
  from a b c show ?thesis by blast
qed

theorem demultiplex_one_wrapper_witness:
  "demultiplex (str ''A\<newline>__GRAPHS_START__\<newline>__GRAPH_0__XYZ__GRAPH_END__\<newline>__GRAPHS_END__\<newline>B'') =
     (str ''A\<newline>\<newline>B'', [str ''XYZ'']) \<and>
   demultiplex (str ''A\<newline>__GRAPH_0__XYZ__GRAPH_END__\<newline>B'') =
     (str ''A\<newline>__GRAPH_0__XYZ__GRAPH_END__\<newline>B'', [str ''XYZ''])"
proof -
  have e: "str ''A\<newline>__GRAPHS_START__\<newline>__GRAPH_0__XYZ__GRAPH_END__\<newline>__GRAPHS_END__\<newline>B'' =
      str ''A\<newline>__GRAPHS_START__\<newline>'' @ wrapper_text (str ''0'', str ''XYZ'') @
      str ''\<newline>__GRAPHS_END__\<newline>B''"
    by (simp add: wrapper_text_def marker_defs str_def)
  have f: "str ''A\<newline>__GRAPH_0__XYZ__GRAPH_END__\<newline>B'' =
      str ''A\<newline>'' @ wrapper_text (str ''0'', str ''XYZ'') @ str ''\<newline>B''"
    by (simp add: wrapper_text_def marker_defs str_def)
  have 1: "str ''0'' \<noteq> []" "\<forall>c \<in> set (str ''0''). isDigit c" "str ''XYZ'' \<noteq> []"
    "\<forall>c \<in> set (str ''XYZ''). \<not> isLineTerminator c"
    "\<not> sublist GRAPH_END (tl (str ''XYZ'') @ butlast GRAPH_END)"
    by (simp_all add: str_def isDigit_def isLineTerminator_def marker_defs sublist_Cons_right)
  have 2: "\<not> sublist GRAPH_BEGIN (str ''A\<newline>__GRAPHS_START__\<newline>'' @ butlast GRAPH_BEGIN)"
    "\<not> sublist GRAPH_BEGIN (str ''\<newline>__GRAPHS_END__\<newline>B'')"
    by (simp_all add: str_def marker_defs sublist_Cons_right)
  have 3: "\<not> sublist GRAPH_BEGIN (str ''A\<newline>'' @ butlast GRAPH_BEGIN)"
    "\<not> sublist GRAPH_BEGIN (str ''\<newline>B'')"
    "\<not> sublist GRAPHS_START (str ''A\<newline>'' @ wrapper_text (str ''0'', str ''XYZ'') @ str ''\<newline>B'')"
    by (simp_all add: str_def marker_defs sublist_Cons_right wrapper_text_def)
  have 4: "str ''A\<newline>__GRAPHS_START__\<newline>'' = str ''A\<newline>'' @ GRAPHS_START @ str ''\<newline>'' \<and>
      str ''\<newline>__GRAPHS_END__\<newline>B'' = str ''\<newline>'' @ GRAPHS_END @ str ''\<newline>B'' \<and>
      \<not> sublist GRAPHS_START (str ''A\<newline>'' @ butlast GRAPHS_START) \<and>
      \<not> sublist GRAPHS_END
         (str ''\<newline>'' @ wrapper_text (str ''0'', str ''XYZ'') @ str ''\<newline>'' @ butlast GRAPHS_END) \<and>
      \<not> sublist GRAPHS_START (str ''\<newline>B'')"
    by (simp add: str_def marker_defs sublist_Cons_right wrapper_text_def)
  have t1: "trim (str ''A\<newline>'' @ str ''\<newline>B'') = str ''A\<newline>\<newline>B''"
    by (simp add: trim_def str_def isWhiteSpace_def isLineTerminator_def)
  have t2: "trim (str ''A\<newline>__GRAPH_0__XYZ__GRAPH_END__\<newline>B'') =
     str ''A\<newline>__GRAPH_0__XYZ__GRAPH_END__\<newline>B''"
    by (simp add: trim_def str_def isWhiteSpace_def isLineTerminator_def)
  from demultiplex_one_wrapper [OF 1 2] 4
  have "demultiplex (str ''A\<newline>__GRAPHS_START__\<newline>'' @ wrapper_text (str ''0'', str ''XYZ'') @
      str ''\<newline>__GRAPHS_END__\<newline>B'') = (trim (str ''A\<newline>'' @ str ''\<newline>B''), [str ''XYZ''])"
    by (metis prod.collapse)
  moreover from demultiplex_one_wrapper [OF 1 3(1,2)] 3(3)
  have "demultiplex (str ''A\<newline>'' @ wrapper_text (str ''0'', str ''XYZ'') @ str ''\<newline>B'') =
     (trim (str ''A\<newline>'' @ wrapper_text (str ''0'', str ''XYZ'') @ str ''\<newline>B''), [str ''XYZ''])"
    by (metis prod.collapse)
  ultimately show ?thesis using e f t1 t2 by simp
qed

section \<open>Facts about the handlers\<close>

lemma handleRun_begin_request:
  "handleRun_begin st = (st', Some r) \<Longrightarrow>
     r = \<lparr>code = currentCode st, stdin = Some (userInput st), notebook_id = None\<rparr> \<and>
     isExecuting st' \<and> \<not> isExecuting st \<and> notebookId st' = notebookId st"
  by (auto simp: handleRun_begin_def Let_def split: if_splits)

lemma handleRun_begin_idle:
  "handleRun_begin st = (st', None) \<Longrightarrow>
     isExecuting st' = isExecuting st \<and> notebookId st' = notebookId st"
  by (auto simp: handleRun_begin_def Let_def split: if_splits)

lemma handleRun_resume_fields:
  "isExecuting (handleRun_resume oc st) = False \<and>
   notebookId (handleRun_resume oc st) = notebookId st"
  by (simp add: handleRun_resume_def Let_def split: outcome.splits list.splits)

lemma runNotebookCell_begin_request:
  assumes "runNotebookCell_begin w cells cid st = (st', Some r)"
  shows "notebook_id r = Some (notebookId st) \<and> notebookCells st' = mark_running cid cells \<and>
         notebookId st' = notebookId st \<and> isExecuting st' = isExecuting st \<and>
         graphs st' = graphs st \<and>
         (\<exists>cell. find (\<lambda>c. cell_id c = cid) cells = Some cell \<and> cell_type cell = Code \<and>
            code r = cell_content cell)"
  using assms
  by (auto simp: runNotebookCell_begin_def Let_def split: option.splits if_splits cell_kind.splits)
     (metis cell_kind.exhaust)+

lemma runNotebookCell_begin_notebookId:
  "notebookId (fst (runNotebookCell_begin w cells cid st)) = notebookId st"
  by (auto simp: runNotebookCell_begin_def Let_def split: option.splits)

lemma runNotebookCell_resume_notebookId:
  "notebookId (runNotebookCell_resume cells cid oc st) = notebookId st"
  by (auto simp: runNotebookCell_resume_def split: option.splits outcome.splits)

lemma runNotebookCell_notebookId:
  "notebookId (fst (runNotebookCell w cells cid st)) = notebookId st"
  using runNotebookCell_begin_notebookId [of w cells cid st]
  by (auto simp: runNotebookCell_def runNotebookCell_resume_notebookId split: prod.splits option.splits)

lemma runNotebookCell_dispatch:
  "Dispatch r \<in> set (snd (runNotebookCell w cells cid st)) \<Longrightarrow>
     notebook_id r = Some (notebookId st)"
  by (auto simp: runNotebookCell_def split: prod.splits option.splits
           dest: runNotebookCell_begin_request)

lemma runAllCells_loop_session:
  "notebookId (fst (runAllCells_loop env cells k rest st)) = notebookId st \<and>
   (\<forall>r. Dispatch r \<in> set (snd (runAllCells_loop env cells k rest st)) \<longrightarrow>
        notebook_id r = Some (notebookId st))"
proof (induction rest arbitrary: k st)
  case Nil
  show ?case by simp
next
  case (Cons cell rest)
  show ?case
  proof (cases "cell_type cell = Code")
    case False
    with Cons.IH [of "Suc k" st] show ?thesis by simp
  next
    case True
    obtain st' evs where run: "runNotebookCell (env k) cells (cell_id cell) st = (st', evs)"
      by (cases "runNotebookCell (env k) cells (cell_id cell) st")
    obtain st'' evs' where loop: "runAllCells_loop env cells (Suc k) rest st' = (st'', evs')"
      by (cases "runAllCells_loop env cells (Suc k) rest st'")
    from run have id': "notebookId st' = notebookId st"
      using runNotebookCell_notebookId [of "env k" cells "cell_id cell" st] by simp
    from run have d: "\<And>r. Dispatch r \<in> set evs \<Longrightarrow> notebook_id r = Some (notebookId st)"
      using runNotebookCell_dispatch [of _ "env k" cells "cell_id cell" st] by simp
    from Cons.IH [of "Suc k" st'] loop id'
    have "notebookId st'' = notebookId st"
      and "\<And>r. Dispatch r \<in> set evs' \<Longrightarrow> notebook_id r = Some (notebookId st)"
      by auto
    with True run loop d show ?thesis by auto
  qed
qed

lemma in_set_map_obtain: "c \<in> set (map f xs) \<Longrightarrow> \<exists>x \<in> set xs. c = f x"
  by auto

lemma mark_done_cell:
  assumes "c \<in> set (mark_done cid t cells)" and "cell_id c = cid"
  shows "cell_isExecuting c = Some False \<and> cell_output c = Some t"
proof -
  from assms(1) obtain x where c: "c = (if cell_id x = cid
              then x\<lparr>cell_isExecuting := Some False, cell_output := Some t\<rparr> else x)"
    unfolding mark_done_def by (blast dest: in_set_map_obtain)
  show ?thesis
  proof (cases "cell_id x = cid")
    case True
    then have "c = x\<lparr>cell_isExecuting := Some False, cell_output := Some t\<rparr>"
      using c by simp
    then show ?thesis by simp
  next
    case False
    then have "c = x" using c by simp
    with assms(2) False show ?thesis by blast
  qed
qed

lemma mark_running_cell:
  assumes "c \<in> set (mark_running cid cells)" and "cell_id c = cid"
  shows "cell_isExecuting c = Some True"
proof -
  from assms(1) obtain x where c: "c = (if cell_id x = cid
              then x\<lparr>cell_isExecuting := Some True, cell_output := Some (str ''Running...'')\<rparr>
              else x)"
    unfolding mark_running_def by (blast dest: in_set_map_obtain)
  show ?thesis
  proof (cases "cell_id x = cid")
    case True
    then have "c = x\<lparr>cell_isExecuting := Some True, cell_output := Some (str ''Running...'')\<rparr>"
      using c by simp
    then show ?thesis by simp
  next
    case False
    then have "c = x" using c by simp
    with assms(2) False show ?thesis by blast
  qed
qed

lemma mark_done_others:
  assumes "c \<in> set (mark_done cid t cells)" and "cell_isExecuting c = Some True"
  shows "cell_id c \<noteq> cid \<and> c \<in> set cells"
proof -
  from assms(1) obtain x where x: "x \<in> set cells" and c: "c = (if cell_id x = cid
              then x\<lparr>cell_isExecuting := Some False, cell_output := Some t\<rparr> else x)"
    unfolding mark_done_def by (blast dest: in_set_map_obtain)
  show ?thesis
  proof (cases "cell_id x = cid")
    case True
    then have "c = x\<lparr>cell_isExecuting := Some False, cell_output := Some t\<rparr>"
      using c by simp
    with assms(2) show ?thesis by simp
  next
    case False
    then have "c = x" using c by simp
    with x False show ?thesis by simp
  qed
qed

lemma runNotebookCell_resume_cells:
  assumes "find (\<lambda>c. cell_id c = cid) cells = Some cell"
  shows "\<exists>t. notebookCells (runNotebookCell_resume cells cid oc st) = mark_done cid t cells"
  using assms by (cases oc) (auto simp: runNotebookCell_resume_def)

section \<open>The session id\<close>

text \<open>
  Claim C3. A request carries a \<^verbatim>\<open>notebook_id\<close> exactly when a notebook cell is run:
  every request \<^verbatim>\<open>handleRun\<close> sends has none, and every request sent by
  \<^verbatim>\<open>runNotebookCell\<close>, alone or from the loop of \<^verbatim>\<open>runAllCells\<close>, carries the
  \<^verbatim>\<open>notebookId\<close> of the component. No handler changes \<^verbatim>\<open>notebookId\<close>, so it is the
  same for every cell and every repeated run.
\<close>

theorem session_id_iff_notebook_cell:
  "(\<forall>r. Dispatch r \<in> set (snd (handleRun w st)) \<longrightarrow> notebook_id r = None) \<and>
   (\<forall>r. Dispatch r \<in> set (snd (runNotebookCell w cells cid st)) \<longrightarrow>
        notebook_id r = Some (notebookId st)) \<and>
   (\<forall>r. Dispatch r \<in> set (snd (runAllCells env st)) \<longrightarrow>
        notebook_id r = Some (notebookId st)) \<and>
   notebookId (fst (handleRun w st)) = notebookId st \<and>
   notebookId (fst (runNotebookCell w cells cid st)) = notebookId st \<and>
   notebookId (fst (runAllCells env st)) = notebookId st"
proof -
  have a: "\<forall>r. Dispatch r \<in> set (snd (handleRun w st)) \<longrightarrow> notebook_id r = None"
    by (auto simp: handleRun_def split: prod.splits option.splits
             dest: handleRun_begin_request)
  have b: "notebookId (fst (handleRun w st)) = notebookId st"
    by (auto simp: handleRun_def handleRun_resume_fields split: prod.splits option.splits
             dest: handleRun_begin_request handleRun_begin_idle)
  show ?thesis
    using a b runNotebookCell_dispatch [of _ w cells cid st]
      runNotebookCell_notebookId [of w cells cid st]
      runAllCells_loop_session [of env "notebookCells st" 0 "notebookCells st" st]
    by (simp add: runAllCells_def)
qed

theorem session_id_iff_notebook_cell_witness:
  "Dispatch \<lparr>code = str ''print(1)'', stdin = Some [], notebook_id = None\<rparr>
     \<in> set (snd (handleRun (settles (succeeded (str ''1''))) (lab_with_code (str ''print(1)'')))) \<and>
   Dispatch \<lparr>code = str ''print(2)'', stdin = Some [], notebook_id = Some sample_id\<rparr>
     \<in> set (snd (runAllCells (\<lambda>k. settles (succeeded (str ''2'')))
                 (lab_with_cells [code_cell (str ''7'') (str ''print(2)'')]))) \<and>
   notebookId (fst (runAllCells (\<lambda>k. settles (succeeded (str ''2'')))
                 (lab_with_cells [code_cell (str ''7'') (str ''print(2)'')]))) = sample_id"
  using session_id_iff_notebook_cell
    [of "settles (succeeded (str ''1''))" "lab_with_code (str ''print(1)'')"
        "[]" "[]" "\<lambda>k. settles (succeeded (str ''2''))"]
  by (simp add: fixture_defs handler_defs str_def trim_def)

section \<open>Waiting for input\<close>

lemma input_matches_length: "length (input_matches s) = call_sites s"
proof (induction s rule: input_matches.induct)
  case 1
  show ?case by simp
next
  case (2 c cs)
  show ?case
  proof (cases "prefix (str ''input('') (c # cs)")
    case False
    with 2 show ?thesis by simp
  next
    case True
    then obtain r where r: "c # cs = str ''input('' @ r" by (auto simp: prefix_def)
    then have cs: "cs = str ''nput('' @ r" and d: "drop 6 (c # cs) = r"
      by (simp_all add: str_def)
    have "call_sites cs = call_sites r"
      unfolding cs by (simp add: str_def)
    with 2 True d show ?thesis by simp
  qed
qed

lemma inputCount_call_sites: "inputCount s = call_sites s"
  using input_matches_length [of s]
  by (cases "input_matches s") (auto simp: inputCount_def match_input_def)

text \<open>
  Claim C4. In the editor, when no run is in flight: if the code holds at least one
  \<^verbatim>\<open>input(\<close> and the input typed so far is empty (or blank), \<^verbatim>\<open>handleRun\<close> sends
  nothing, sets \<^verbatim>\<open>waitingForInput\<close> and shows a message with the number of inputs the
  code needs; if the code holds no \<^verbatim>\<open>input(\<close>, the request is sent at once, whatever
  the input typed so far. By \<open>inputCount_call_sites\<close> the number the handler counts is
  the number of call sites.
\<close>

theorem input_requirement_gate:
  assumes "\<not> isExecuting st"
  shows "(1 \<le> inputCount (currentCode st) \<and> trim (userInput st) = [] \<longrightarrow>
            handleRun w st =
              (st\<lparr>graphs := [], currentGraphIndex := 0, waitingForInput := True,
                  outputText :=
                    [0x23F3] @ str '' Your code needs '' @
                    decimal (inputCount (currentCode st)) @ str '' input'' @
                    (if inputCount (currentCode st) > 1 then str ''s'' else []) @
                    str ''.\<newline>Enter them below (one per line, or space-separated):\<newline>''\<rparr>,
               [])) \<and>
         (inputCount (currentCode st) = 0 \<longrightarrow>
            snd (handleRun w st) =
              [Dispatch \<lparr>code = currentCode st, stdin = Some (userInput st), notebook_id = None\<rparr>,
               Settled (runCode w
                 \<lparr>code = currentCode st, stdin = Some (userInput st), notebook_id = None\<rparr>)])"
  using assms
  by (simp add: handleRun_def handleRun_begin_def Let_def needs_input_message_def)

theorem input_requirement_gate_witness:
  "inputCount (str ''a = input()\<newline>b = input()'') = 2 \<and>
   handleRun (settles (succeeded [])) (lab_with_code (str ''a = input()\<newline>b = input()'')) =
     ((lab_with_code (str ''a = input()\<newline>b = input()''))
        \<lparr>graphs := [], currentGraphIndex := 0, waitingForInput := True,
         outputText := [0x23F3] @ str '' Your code needs 2 inputs.\<newline>Enter them below (one per line, or space-separated):\<newline>''\<rparr>,
      []) \<and>
   snd (handleRun (settles (succeeded [])) ((lab_with_code (str ''print(1)''))\<lparr>userInput := str ''5''\<rparr>)) =
     [Dispatch \<lparr>code = str ''print(1)'', stdin = Some (str ''5''), notebook_id = None\<rparr>,
      Settled (succeeded [])]"
  using input_requirement_gate
      [of "lab_with_code (str ''a = input()\<newline>b = input()'')" "settles (succeeded [])"]
    input_requirement_gate
      [of "(lab_with_code (str ''print(1)''))\<lparr>userInput := str ''5''\<rparr>" "settles (succeeded [])"]
  by (simp add: fixture_defs currentCode_def inputCount_def match_input_def str_def trim_def
        decimal.simps)

section \<open>Running a surface that is executing\<close>

lemma editor_rerun_noop: "isExecuting st \<Longrightarrow> handleRun w st = (st, [])"
  by (simp add: handleRun_def handleRun_begin_def)

text \<open>
  Claim C2. \<^verbatim>\<open>handleRun\<close> returns at once when \<^verbatim>\<open>isExecuting\<close> is set (the lemma
  above). \<^verbatim>\<open>runNotebookCell\<close> has no such test: below, cell 7 is started, and while
  its request is in flight (its \<^verbatim>\<open>isExecuting\<close> is \<^verbatim>\<open>true\<close>) \<^verbatim>\<open>runAllCells\<close> of that
  render runs it again and a second request for the same cell is sent.
\<close>

theorem executing_cell_dispatched_again:
  "map cell_isExecuting
     (notebookCells (fst (runNotebookCell_begin (settles (succeeded (str ''1'')))
        [code_cell (str ''7'') (str ''print(1)'')] (str ''7'')
        (lab_with_cells [code_cell (str ''7'') (str ''print(1)'')])))) = [Some True] \<and>
   snd (runAllCells (\<lambda>k. settles (succeeded (str ''1'')))
     (fst (runNotebookCell_begin (settles (succeeded (str ''1'')))
        [code_cell (str ''7'') (str ''print(1)'')] (str ''7'')
        (lab_with_cells [code_cell (str ''7'') (str ''print(1)'')])))) =
     [Dispatch \<lparr>code = str ''print(1)'', stdin = Some [], notebook_id = Some sample_id\<rparr>,
      Settled (succeeded (str ''1'')), Delay 300]"
  by (simp add: fixture_defs handler_defs str_def)

section \<open>The in-flight flag\<close>

text \<open>
  Each attempt on its own. Whatever the outcome of the \<^verbatim>\<open>await\<close> (a response,
  successful or not, or any thrown error) and whatever the state when it settles, the
  state the handler writes on completion has the flag of its own surface cleared:
  \<^verbatim>\<open>isExecuting\<close> for \<^verbatim>\<open>handleRun\<close>, \<^verbatim>\<open>isExecuting\<close> of the cell for
  \<^verbatim>\<open>runNotebookCell\<close>. While the request is in flight the flag is set. After the run
  of a cell, a cell that is marked as executing is another cell, and it was marked so
  in the list the handler started from.
\<close>

lemma in_flight_flag_cleared:
  "isExecuting (handleRun_resume oc st2) = False \<and>
   (handleRun_begin st = (st1, Some req) \<longrightarrow>
      isExecuting st1 \<and> isExecuting (fst (handleRun w st)) = False) \<and>
   (runNotebookCell_begin w cells cid st = (st1, Some req) \<longrightarrow>
      (\<forall>c \<in> set (notebookCells st1). cell_id c = cid \<longrightarrow> cell_isExecuting c = Some True) \<and>
      (\<forall>c \<in> set (notebookCells (runNotebookCell_resume cells cid oc st2)).
          cell_id c = cid \<longrightarrow> cell_isExecuting c = Some False) \<and>
      (\<forall>c \<in> set (notebookCells (fst (runNotebookCell w cells cid st))).
          cell_id c = cid \<longrightarrow> cell_isExecuting c = Some False) \<and>
      (\<forall>c \<in> set (notebookCells (fst (runNotebookCell w cells cid st))).
          cell_isExecuting c = Some True \<longrightarrow> cell_id c \<noteq> cid \<and> c \<in> set cells))"
proof -
  have a: "isExecuting (handleRun_resume oc st2) = False"
    by (simp add: handleRun_resume_fields)
  have b: "isExecuting st1 \<and> isExecuting (fst (handleRun w st)) = False"
    if "handleRun_begin st = (st1, Some req)"
    using that handleRun_begin_request [OF that]
    by (simp add: handleRun_def handleRun_resume_fields)
  have c: "(\<forall>c \<in> set (notebookCells st1). cell_id c = cid \<longrightarrow> cell_isExecuting c = Some True) \<and>
      (\<forall>c \<in> set (notebookCells (runNotebookCell_resume cells cid oc st2)).
          cell_id c = cid \<longrightarrow> cell_isExecuting c = Some False) \<and>
      (\<forall>c \<in> set (notebookCells (fst (runNotebookCell w cells cid st))).
          cell_id c = cid \<longrightarrow> cell_isExecuting c = Some False) \<and>
      (\<forall>c \<in> set (notebookCells (fst (runNotebookCell w cells cid st))).
          cell_isExecuting c = Some True \<longrightarrow> cell_id c \<noteq> cid \<and> c \<in> set cells)"
    if h: "runNotebookCell_begin w cells cid st = (st1, Some req)"
  proof -
    from runNotebookCell_begin_request [OF h] obtain cell
      where f: "find (\<lambda>c. cell_id c = cid) cells = Some cell"
        and r: "notebookCells st1 = mark_running cid cells" by blast
    from runNotebookCell_resume_cells [OF f] have
      d: "\<And>oc st. \<exists>t. notebookCells (runNotebookCell_resume cells cid oc st) = mark_done cid t cells"
      by blast
    have "fst (runNotebookCell w cells cid st) = runNotebookCell_resume cells cid (runCode w req) st1"
      using h by (simp add: runNotebookCell_def)
    with d [of oc st2] d [of "runCode w req" st1] r show ?thesis
      by (auto dest: mark_done_cell mark_running_cell mark_done_others)
  qed
  from a b c show ?thesis by blast
qed

lemma in_flight_flag_cleared_witness:
  "isExecuting (fst (handleRun_begin (lab_with_code (str ''print(1)'')))) \<and>
   isExecuting (fst (handleRun (settles (Threw \<lparr>err_code = Some (str ''ECONNABORTED''),
        err_message = Some (str ''timeout of 125000ms exceeded''), err_detail = None\<rparr>))
      (lab_with_code (str ''print(1)'')))) = False \<and>
   map cell_isExecuting (notebookCells (fst (runNotebookCell_begin (settles (failed (str ''boom'')))
        [code_cell (str ''7'') (str ''print(2)'')] (str ''7'')
        (lab_with_cells [code_cell (str ''7'') (str ''print(2)'')])))) = [Some True] \<and>
   map cell_isExecuting (notebookCells (fst (runNotebookCell (settles (failed (str ''boom'')))
        [code_cell (str ''7'') (str ''print(2)'')] (str ''7'')
        (lab_with_cells [code_cell (str ''7'') (str ''print(2)'')])))) = [Some False]"
  using in_flight_flag_cleared
    [of _ _ "lab_with_code (str ''print(1)'')"
        "fst (handleRun_begin (lab_with_code (str ''print(1)'')))"
        "\<lparr>code = str ''print(1)'', stdin = Some [], notebook_id = None\<rparr>"
        "settles (Threw \<lparr>err_code = Some (str ''ECONNABORTED''),
           err_message = Some (str ''timeout of 125000ms exceeded''), err_detail = None\<rparr>)"]
  by (simp add: fixture_defs handler_defs str_def trim_def)

text \<open>
  Claim C6. The flag of a surface is cleared when its attempt completes, so that no
  surface is left executing for good. The code clears the flag in each write, but the
  write of a cell run replaces the whole list by one computed from the list its closure
  captured. In the two overlapping runs above both requests succeed and both handlers
  complete; cell 2 is cleared when its own attempt completes, and the completion of
  cell 7 marks it as executing again, with the output \<^verbatim>\<open>Running...\<close>, though no request
  is in flight any more.
\<close>

theorem cell_left_executing:
  "map cell_isExecuting (notebookCells cell_2_started) = [Some True, None] \<and>
   map cell_isExecuting (notebookCells cell_7_started) = [Some True, Some True] \<and>
   map cell_isExecuting (notebookCells cell_2_settled) = [Some False, None] \<and>
   map cell_isExecuting (notebookCells cell_7_settled) = [Some True, Some False] \<and>
   map cell_output (notebookCells cell_7_settled) =
     [Some (str ''Running...''), Some (str ''7'')]"
  by (simp add: two_cells_def cell_2_started_def cell_7_started_def cell_2_settled_def
        cell_7_settled_def fixture_defs handler_defs str_def)

section \<open>The output of a notebook cell\<close>

text \<open>
  Claim C9. When the run of a notebook cell succeeds, the \<^verbatim>\<open>output\<close> of the cell is
  the stdout of the response as it came, and \<^verbatim>\<open>graphs\<close> is not touched: wrappers in
  the stdout of a cell are neither extracted nor removed. The same stdout in the editor
  does fill \<^verbatim>\<open>graphs\<close>.
\<close>

theorem cell_output_is_raw_stdout:
  assumes "runNotebookCell_begin w cells cid st = (st1, Some req)"
    and "runCode w req = Returned result" and "success result"
  shows "notebookCells (fst (runNotebookCell w cells cid st)) = mark_done cid (stdout result) cells \<and>
         (\<forall>c \<in> set (notebookCells (fst (runNotebookCell w cells cid st))).
            cell_id c = cid \<longrightarrow> cell_output c = Some (stdout result)) \<and>
         graphs (fst (runNotebookCell w cells cid st)) = graphs st"
proof -
  from runNotebookCell_begin_request [OF assms(1)] obtain cell
    where f: "find (\<lambda>c. cell_id c = cid) cells = Some cell" and g: "graphs st1 = graphs st"
    by blast
  have e: "fst (runNotebookCell w cells cid st) = runNotebookCell_resume cells cid (Returned result) st1"
    using assms(1,2) by (simp add: runNotebookCell_def)
  have n: "notebookCells (runNotebookCell_resume cells cid (Returned result) st1) =
             mark_done cid (stdout result) cells"
    using f assms(3) by (simp add: runNotebookCell_resume_def cell_result_text_def)
  have "graphs (runNotebookCell_resume cells cid (Returned result) st1) = graphs st1"
    using f by (simp add: runNotebookCell_resume_def)
  with e n g show ?thesis by (auto dest: mark_done_cell)
qed

theorem cell_output_is_raw_stdout_witness:
  "map cell_output (notebookCells (fst (runNotebookCell
       (settles (succeeded (str ''A\<newline>__GRAPH_0__XYZ__GRAPH_END__\<newline>B'')))
       [code_cell (str ''7'') (str ''plot()'')] (str ''7'')
       (lab_with_cells [code_cell (str ''7'') (str ''plot()'')])))) =
     [Some (str ''A\<newline>__GRAPH_0__XYZ__GRAPH_END__\<newline>B'')] \<and>
   graphs (fst (runNotebookCell
       (settles (succeeded (str ''A\<newline>__GRAPH_0__XYZ__GRAPH_END__\<newline>B'')))
       [code_cell (str ''7'') (str ''plot()'')] (str ''7'')
       (lab_with_cells [code_cell (str ''7'') (str ''plot()'')]))) = [] \<and>
   graphs (fst (handleRun
       (settles (succeeded (str ''A\<newline>__GRAPH_0__XYZ__GRAPH_END__\<newline>B'')))
       (lab_with_code (str ''plot()'')))) = [str ''XYZ'']"
  using cell_output_is_raw_stdout
    [of "settles (succeeded (str ''A\<newline>__GRAPH_0__XYZ__GRAPH_END__\<newline>B''))"
        "[code_cell (str ''7'') (str ''plot()'')]" "str ''7''"
        "lab_with_cells [code_cell (str ''7'') (str ''plot()'')]"
        "fst (runNotebookCell_begin
           (settles (succeeded (str ''A\<newline>__GRAPH_0__XYZ__GRAPH_END__\<newline>B'')))
           [code_cell (str ''7'') (str ''plot()'')] (str ''7'')
           (lab_with_cells [code_cell (str ''7'') (str ''plot()'')]))"
        "\<lparr>code = str ''plot()'', stdin = Some [], notebook_id = Some sample_id\<rparr>"
        "\<lparr>success = True, stdout = str ''A\<newline>__GRAPH_0__XYZ__GRAPH_END__\<newline>B'', stderr = []\<rparr>"]
  by (simp add: fixture_defs handler_defs str_def trim_def demultiplex_def wrapper_at_def
        wrapper_text_def marker_defs isDigit_def isLineTerminator_def isWhiteSpace_def)

section \<open>The messages of the failures\<close>

lemma timeout_message_names_timeout: "includes_js timeout_message (str ''timeout'')"
  by (simp add: includes_js_def timeout_message_def str_def decimal.simps)

lemma unknown_error_is_not_timeout_message: "str ''Unknown error occurred'' \<noteq> timeout_message"
  by (simp add: timeout_message_def str_def)

lemma cell_timeout_names_timeout:
  "includes_js (str ''Execution timeout - code took too long to execute'') (str ''timeout'')"
  by (simp add: includes_js_def str_def)

lemma transport_text_is_not_timeout_message:
  assumes "\<not> isTimeout e" and "\<not> truthy (err_detail e)"
  shows "errorMsg e \<noteq> timeout_message"
proof (cases "truthy (err_message e)")
  case True
  then obtain m where m: "err_message e = Some m" by (auto simp: truthy_def split: option.splits)
  with assms(1) have "\<not> includes_js m (str ''timeout'')" by (simp add: isTimeout_def)
  with timeout_message_names_timeout have "m \<noteq> timeout_message" by auto
  with assms True m show ?thesis by (simp add: errorMsg_def)
next
  case False
  with assms show ?thesis by (simp add: errorMsg_def unknown_error_is_not_timeout_message)
qed

lemma cell_transport_text_is_not_timeout:
  assumes "\<not> isTimeout e"
  shows "cell_errorMsg e \<noteq> str ''Execution timeout - code took too long to execute''"
proof (cases "truthy (err_message e)")
  case True
  then obtain m where m: "err_message e = Some m" by (auto simp: truthy_def split: option.splits)
  with assms have "\<not> includes_js m (str ''timeout'')" by (simp add: isTimeout_def)
  with cell_timeout_names_timeout
  have "m \<noteq> str ''Execution timeout - code took too long to execute''" by auto
  with assms True m show ?thesis by (simp add: cell_errorMsg_def)
next
  case False
  with assms show ?thesis by (simp add: cell_errorMsg_def str_def)
qed

lemma handleRun_resume_threw: 
  "outputText (handleRun_resume (Threw e) st) = str ''Error:\<newline>'' @ errorMsg e"
  by (simp add: handleRun_resume_def)

lemma handleRun_resume_failed:
  "\<not> success r \<Longrightarrow> outputText (handleRun_resume (Returned r) st) = str ''Error:\<newline>'' @ stderr r"
  by (simp add: handleRun_resume_def)

text \<open>
  A response the service marks as failed and a thrown transport error show the same
  text in the editor when the stderr of the one is the message of the other.
\<close>

theorem failure_messages_coincide:
  "\<not> isTimeout \<lparr>err_code = Some (str ''ERR_NETWORK''),
       err_message = Some (str ''Network Error''), err_detail = None\<rparr> \<and>
   outputText (handleRun_resume (failed (str ''Network Error'')) (lab_with_code (str ''print(1)''))) =
   outputText (handleRun_resume
     (Threw \<lparr>err_code = Some (str ''ERR_NETWORK''),
       err_message = Some (str ''Network Error''), err_detail = None\<rparr>)
     (lab_with_code (str ''print(1)'')))"
  by (simp add: handleRun_resume_def failed_def errorMsg_def isTimeout_def truthy_def
        includes_js_def str_def)

text \<open>
  Claim C8, amended. In the editor every failure is shown as \<^verbatim>\<open>Error:\<close>, a line break
  and a text: for a timeout a fixed diagnostic that names the timeout; for any other
  thrown error the detail of the response, else the message of the error, else
  \<^verbatim>\<open>Unknown error occurred\<close>; for a response marked as failed its stderr. A thrown
  error that is not a timeout and whose text is not a response detail never shows the
  timeout diagnostic. A failed response shows the same text as a thrown error exactly
  when its stderr is the text of that error. In a notebook cell that asked for input
  the same holds with \<^verbatim>\<open>ERROR:\<close>, the diagnostic
  \<^verbatim>\<open>Execution timeout - code took too long to execute\<close> and the fallback
  \<^verbatim>\<open>Unknown error\<close>.
\<close>

theorem failure_messages:
  "(isTimeout e \<longrightarrow>
      outputText (handleRun_resume (Threw e) st) = str ''Error:\<newline>'' @ timeout_message) \<and>
   includes_js timeout_message (str ''timeout'') \<and>
   (\<not> isTimeout e \<longrightarrow>
      outputText (handleRun_resume (Threw e) st) =
        str ''Error:\<newline>'' @
        (if truthy (err_detail e) then the (err_detail e)
         else if truthy (err_message e) then the (err_message e)
         else str ''Unknown error occurred'')) \<and>
   (\<not> isTimeout e \<and> \<not> truthy (err_detail e) \<longrightarrow>
      outputText (handleRun_resume (Threw e) st) \<noteq> str ''Error:\<newline>'' @ timeout_message) \<and>
   (\<not> success r \<longrightarrow>
      outputText (handleRun_resume (Returned r) st) = str ''Error:\<newline>'' @ stderr r \<and>
      (outputText (handleRun_resume (Returned r) st) = outputText (handleRun_resume (Threw e) st)
         \<longleftrightarrow> stderr r = errorMsg e)) \<and>
   (find (\<lambda>c. cell_id c = cid) cells = Some cell \<and> 0 < inputCount (cell_content cell) \<longrightarrow>
      notebookCells (runNotebookCell_resume cells cid (Threw e) st) =
        mark_done cid (str ''ERROR:\<newline>'' @
          (if isTimeout e then str ''Execution timeout - code took too long to execute''
           else if truthy (err_message e) then the (err_message e)
           else str ''Unknown error'')) cells \<and>
      (\<not> isTimeout e \<longrightarrow>
         cell_errorMsg e \<noteq> str ''Execution timeout - code took too long to execute'') \<and>
      (\<not> success r \<longrightarrow>
         notebookCells (runNotebookCell_resume cells cid (Returned r) st) =
           mark_done cid (str ''ERROR:\<newline>'' @ stderr r) cells))"
proof -
  have a: "isTimeout e \<longrightarrow>
      outputText (handleRun_resume (Threw e) st) = str ''Error:\<newline>'' @ timeout_message"
    by (simp add: handleRun_resume_threw errorMsg_def)
  have b: "\<not> isTimeout e \<longrightarrow>
      outputText (handleRun_resume (Threw e) st) =
        str ''Error:\<newline>'' @
        (if truthy (err_detail e) then the (err_detail e)
         else if truthy (err_message e) then the (err_message e)
         else str ''Unknown error occurred'')"
    by (simp add: handleRun_resume_threw errorMsg_def)
  have c: "\<not> isTimeout e \<and> \<not> truthy (err_detail e) \<longrightarrow>
      outputText (handleRun_resume (Threw e) st) \<noteq> str ''Error:\<newline>'' @ timeout_message"
    using transport_text_is_not_timeout_message [of e] by (simp add: handleRun_resume_threw)
  have d: "\<not> success r \<longrightarrow>
      outputText (handleRun_resume (Returned r) st) = str ''Error:\<newline>'' @ stderr r \<and>
      (outputText (handleRun_resume (Returned r) st) = outputText (handleRun_resume (Threw e) st)
         \<longleftrightarrow> stderr r = errorMsg e)"
    by (simp add: handleRun_resume_threw handleRun_resume_failed)
  have f: "find (\<lambda>c. cell_id c = cid) cells = Some cell \<and> 0 < inputCount (cell_content cell) \<longrightarrow>
      notebookCells (runNotebookCell_resume cells cid (Threw e) st) =
        mark_done cid (str ''ERROR:\<newline>'' @
          (if isTimeout e then str ''Execution timeout - code took too long to execute''
           else if truthy (err_message e) then the (err_message e)
           else str ''Unknown error'')) cells \<and>
      (\<not> isTimeout e \<longrightarrow>
         cell_errorMsg e \<noteq> str ''Execution timeout - code took too long to execute'') \<and>
      (\<not> success r \<longrightarrow>
         notebookCells (runNotebookCell_resume cells cid (Returned r) st) =
           mark_done cid (str ''ERROR:\<newline>'' @ stderr r) cells)"
    using cell_transport_text_is_not_timeout [of e]
    by (simp add: runNotebookCell_resume_def cell_errorMsg_def cell_result_text_def)
  from a b c d f timeout_message_names_timeout show ?thesis by blast
qed

theorem failure_messages_witness:
  "isTimeout timeout_error \<and> \<not> isTimeout network_error \<and>
   outputText (handleRun_resume (Threw timeout_error) (lab_with_code (str ''print(1)''))) =
     str ''Error:\<newline>Execution timeout: Code took longer than 125 seconds.\<newline>Please optimize your code or reduce the workload.'' \<and>
   outputText (handleRun_resume (Threw network_error) (lab_with_code (str ''print(1)''))) =
     str ''Error:\<newline>Network Error'' \<and>
   outputText (handleRun_resume (failed (str ''NameError: name x is not defined''))
       (lab_with_code (str ''print(x)''))) =
     str ''Error:\<newline>NameError: name x is not defined'' \<and>
   map cell_output (notebookCells (runNotebookCell_resume
       [code_cell (str ''7'') (str ''x = input()'')] (str ''7'') (Threw timeout_error)
       (lab_with_cells [code_cell (str ''7'') (str ''x = input()'')]))) =
     [Some (str ''ERROR:\<newline>Execution timeout - code took too long to execute'')]"
  using failure_messages
      [of timeout_error "lab_with_code (str ''print(1)'')"
          "\<lparr>success = False, stdout = [], stderr = str ''NameError: name x is not defined''\<rparr>"
          "str ''7''" "[code_cell (str ''7'') (str ''x = input()'')]"
          "code_cell (str ''7'') (str ''x = input()'')"]
    failure_messages [of network_error "lab_with_code (str ''print(1)'')"]
  by (simp add: fixture_defs handler_defs timeout_error_def network_error_def isTimeout_def
        includes_js_def truthy_def errorMsg_def timeout_message_def decimal.simps str_def)

section \<open>Run all\<close>

lemma find_distinct_id:
  "distinct (map cell_id cells) \<Longrightarrow> cell \<in> set cells \<Longrightarrow>
     find (\<lambda>c. cell_id c = cell_id cell) cells = Some cell"
proof (induction cells)
  case Nil
  then show ?case by simp
next
  case (Cons a cells)
  show ?case
  proof (cases "cell = a")
    case True
    then show ?thesis by simp
  next
    case False
    with Cons.prems have m: "cell \<in> set cells" by simp
    with Cons.prems have "cell_id a \<noteq> cell_id cell" by force
    with Cons m show ?thesis by simp
  qed
qed

lemma runNotebookCell_events:
  assumes "find (\<lambda>c. cell_id c = cid) cells = Some cell" and "cell_type cell = Code"
  shows "snd (runNotebookCell w cells cid st) =
     (case cell_stdin w cell of
        None \<Rightarrow> []
      | Some inp \<Rightarrow>
          [Dispatch \<lparr>code = cell_content cell, stdin = Some inp,
                     notebook_id = Some (notebookId st)\<rparr>,
           Settled (runCode w \<lparr>code = cell_content cell, stdin = Some inp,
                     notebook_id = Some (notebookId st)\<rparr>)])"
  using assms
  by (simp add: runNotebookCell_def runNotebookCell_begin_def cell_stdin_def Let_def
        split: option.splits)

lemma runAllCells_loop_trace:
  assumes "distinct (map cell_id cells)" and "set rest \<subseteq> set cells"
  shows "snd (runAllCells_loop env cells k rest st) = sequenced_trace env (notebookId st) k rest"
  using assms(2)
proof (induction rest arbitrary: k st)
  case Nil
  show ?case by simp
next
  case (Cons cell rest)
  then have sub: "set rest \<subseteq> set cells" and mem: "cell \<in> set cells" by auto
  show ?case 
  proof (cases "cell_type cell = Code")
    case False
    with Cons.IH [OF sub, of "Suc k" st] show ?thesis by simp
  next
    case True
    obtain st' evs where run: "runNotebookCell (env k) cells (cell_id cell) st = (st', evs)"
      by (cases "runNotebookCell (env k) cells (cell_id cell) st")
    obtain st'' evs' where loop: "runAllCells_loop env cells (Suc k) rest st' = (st'', evs')"
      by (cases "runAllCells_loop env cells (Suc k) rest st'")
    from run have nid: "notebookId st' = notebookId st"
      using runNotebookCell_notebookId [of "env k" cells "cell_id cell" st] by simp
    from find_distinct_id [OF assms(1) mem] True run
    have evs: "evs = (case cell_stdin (env k) cell of
        None \<Rightarrow> []
      | Some inp \<Rightarrow>
          [Dispatch \<lparr>code = cell_content cell, stdin = Some inp,
                     notebook_id = Some (notebookId st)\<rparr>,
           Settled (runCode (env k) \<lparr>code = cell_content cell, stdin = Some inp,
                     notebook_id = Some (notebookId st)\<rparr>)])"
      using runNotebookCell_events [of "cell_id cell" cells cell "env k" st] by simp
    from Cons.IH [OF sub, of "Suc k" st'] loop nid
    have "evs' = sequenced_trace env (notebookId st) (Suc k) rest" by simp
    with True run loop evs show ?thesis by simp
  qed
qed

lemma dispatched_append: "dispatched (xs @ ys) = dispatched xs @ dispatched ys"
  by (induction xs rule: dispatched.induct) simp_all

lemma dispatched_sequenced_trace:
  assumes "\<forall>i < length cs. cell_type (cs ! i) = Code \<longrightarrow> cell_stdin (env (k + i)) (cs ! i) \<noteq> None"
  shows "map code (dispatched (sequenced_trace env nid k cs)) =
         map cell_content (filter (\<lambda>c. cell_type c = Code) cs)"
  using assms
proof (induction cs arbitrary: k)
  case Nil
  show ?case by simp
next
  case (Cons c cs)
  have "\<forall>i < length cs. cell_type (cs ! i) = Code \<longrightarrow> cell_stdin (env (Suc k + i)) (cs ! i) \<noteq> None"
  proof (intro allI impI)
    fix i assume "i < length cs" "cell_type (cs ! i) = Code"
    with Cons.prems [rule_format, of "Suc i"] show "cell_stdin (env (Suc k + i)) (cs ! i) \<noteq> None"
      by simp
  qed
  from Cons.IH [OF this] have ih: "map code (dispatched (sequenced_trace env nid (Suc k) cs)) =
         map cell_content (filter (\<lambda>c. cell_type c = Code) cs)" .
  show ?case
  proof (cases "cell_type c = Code")
    case False
    with ih show ?thesis by simp
  next
    case True
    with Cons.prems [rule_format, of 0] obtain inp where "cell_stdin (env k) c = Some inp"
      by auto
    with True ih show ?thesis by (simp add: dispatched_append)
  qed
qed

text \<open>
  A notebook of one code cell whose code asks for input: when the prompt is cancelled,
  \<^verbatim>\<open>runAllCells\<close> sends no request for that cell and only waits.
\<close>

theorem run_all_cancelled_prompt:
  "cell_type (code_cell (str ''7'') (str ''x = input()'')) = Code \<and>
   snd (runAllCells (\<lambda>k. settles (succeeded []))
     (lab_with_cells [code_cell (str ''7'') (str ''x = input()'')])) = [Delay 300]"
  by (simp add: fixture_defs handler_defs str_def)

text \<open>
  Claim C5, amended. For a notebook whose cell ids are pairwise distinct, what
  \<^verbatim>\<open>runAllCells\<close> does is the sequence of the specification: the cells in their
  order, nothing for a markdown cell, and for a code cell one request, settled before
  the next thing happens whatever its outcome, then a delay of 300 ms; but a code cell
  whose prompt for input is cancelled gets no request. When no prompt is cancelled, the
  requests sent are the sources of the code cells, one each, in the order of the cells.
\<close>

theorem run_all_sequence:
  assumes "distinct (map cell_id (notebookCells st))"
  shows "snd (runAllCells env st) = sequenced_trace env (notebookId st) 0 (notebookCells st) \<and>
         ((\<forall>i < length (notebookCells st). cell_type (notebookCells st ! i) = Code \<longrightarrow>
              cell_stdin (env i) (notebookCells st ! i) \<noteq> None) \<longrightarrow>
          map code (dispatched (snd (runAllCells env st))) =
            map cell_content (filter (\<lambda>c. cell_type c = Code) (notebookCells st)))"
proof -
  have t: "snd (runAllCells env st) = sequenced_trace env (notebookId st) 0 (notebookCells st)"
    using runAllCells_loop_trace [OF assms, of "notebookCells st" env 0 st]
    by (simp add: runAllCells_def)
  show ?thesis
    using t dispatched_sequenced_trace [of "notebookCells st" env 0 "notebookId st"]
    by simp
qed

theorem run_all_sequence_witness:
  "distinct (map cell_id
     [code_cell (str ''1'') (str ''boom()''), markdown_cell (str ''2'') (str ''# Notes''),
      code_cell (str ''3'') (str ''print(3)'')]) \<and>
   snd (runAllCells
       (\<lambda>k. if k = 0 then settles (failed (str ''NameError'')) else settles (succeeded (str ''3'')))
       (lab_with_cells
         [code_cell (str ''1'') (str ''boom()''), markdown_cell (str ''2'') (str ''# Notes''),
          code_cell (str ''3'') (str ''print(3)'')])) =
     [Dispatch \<lparr>code = str ''boom()'', stdin = Some [], notebook_id = Some sample_id\<rparr>,
      Settled (failed (str ''NameError'')), Delay 300,
      Dispatch \<lparr>code = str ''print(3)'', stdin = Some [], notebook_id = Some sample_id\<rparr>,
      Settled (succeeded (str ''3'')), Delay 300] \<and>
   map code (dispatched (snd (runAllCells
       (\<lambda>k. if k = 0 then settles (failed (str ''NameError'')) else settles (succeeded (str ''3'')))
       (lab_with_cells
         [code_cell (str ''1'') (str ''boom()''), markdown_cell (str ''2'') (str ''# Notes''),
          code_cell (str ''3'') (str ''print(3)'')])))) =
     [str ''boom()'', str ''print(3)'']"
  using run_all_sequence
    [of "lab_with_cells
         [code_cell (str ''1'') (str ''boom()''), markdown_cell (str ''2'') (str ''# Notes''),
          code_cell (str ''3'') (str ''print(3)'')]"
        "\<lambda>k. if k = 0 then settles (failed (str ''NameError'')) else settles (succeeded (str ''3''))"]
  by (simp add: fixture_defs handler_defs str_def)

end
